theory Spec2Isabelle
  imports Main
begin

section \<open>Data model (Backend/app/models.py)\<close>

text \<open>
  Identifiers are UUIDs in the source; only their equality matters, so they are natural
  numbers here. A timestamp is an integer count of microseconds since 1970-01-01 UTC
  (microseconds are the resolution of Python's \<^verbatim>\<open>datetime\<close>); every call of
  \<^verbatim>\<open>datetime.now(timezone.utc)\<close> becomes a parameter \<open>now\<close>, every \<^verbatim>\<open>uuid4()\<close>
  primary-key default a parameter \<open>new_id\<close>.
  Python \<^verbatim>\<open>bytes\<close> and \<^verbatim>\<open>str\<close> are both lists of characters.
\<close>

type_synonym uuid = nat
type_synonym datetime = int
type_synonym bytes = string

definition timedelta_days :: "int \<Rightarrow> int" where
  "timedelta_days n = n * 86400000000"

text \<open>
  The range of a Python \<^verbatim>\<open>datetime\<close>, 0001-01-01 00:00:00 to
  9999-12-31 23:59:59.999999, and the largest number of days of a \<^verbatim>\<open>timedelta\<close>.
\<close>

definition datetime_min :: datetime where
  "datetime_min = - 62135596800000000"

definition datetime_max :: datetime where
  "datetime_max = 253402300799999999"

definition timedelta_max_days :: int where
  "timedelta_max_days = 999999999"

text \<open>The range of a 32-bit INTEGER column, the type of \<^verbatim>\<open>Mapped[int]\<close>.\<close>

definition int32_min :: int where
  "int32_min = - 2147483648"

definition int32_max :: int where
  "int32_max = 2147483647"

datatype DocumentRole = OWNER | EDITOR | VIEWER

datatype InvitationStatus = PENDING | ACCEPTED | DECLINED | EXPIRED

text \<open>
  One record per table, with the columns the services read or write. Columns that no
  modelled operation touches (titles, descriptions, display names, device metadata,
  creation stamps) are left out.
\<close>

record User =
  u_id :: uuid
  u_email :: string
  u_is_active :: bool

record Document =
  d_id :: uuid
  d_owner_id :: uuid
  d_crdt_state :: "bytes option"
  d_crdt_version :: int
  d_is_archived :: bool
  d_is_public :: bool
  d_last_edited_at :: "datetime option"

record DocumentPermission =
  p_id :: uuid
  p_document_id :: uuid
  p_user_id :: uuid
  p_role :: DocumentRole
  p_granted_at :: datetime
  p_granted_by_id :: "uuid option"

record RefreshToken =
  t_id :: uuid
  t_user_id :: uuid
  t_token_hash :: string
  t_is_revoked :: bool
  t_expires_at :: datetime
  t_last_used_at :: "datetime option"
  t_revoked_at :: "datetime option"

record Invitation =
  i_id :: uuid
  i_document_id :: uuid
  i_invited_by_id :: uuid
  i_invitee_email :: string
  i_invitee_id :: "uuid option"
  i_role :: DocumentRole
  i_status :: InvitationStatus
  i_token_hash :: "string option"
  i_message :: "string option"
  i_expires_at :: datetime
  i_responded_at :: "datetime option"

text \<open>
  The column \<^verbatim>\<open>token_hash\<close> of an invitation is NOT NULL and unique in models.py and
  has no default; it is an option here because \<^verbatim>\<open>create_invitation\<close> builds its row
  without it, and the insert then decides.
\<close>

text \<open>
  The database session: the committed contents of the five tables. A service call takes
  the database and returns the new one; a call that raises returns \<open>Inl\<close> of the error
  and the caller keeps the database it had (the failed transaction is rolled back when
  the session is closed, \<^verbatim>\<open>get_db\<close> in database.py). Requests run one after the
  other; interleavings of concurrent transactions are not modelled.

  Of the schema of models.py, the inserts below enforce the primary keys, the unique
  constraint on (document, user) of a permission, the partial unique index on
  (document, invitee email) of a PENDING invitation, the NOT NULL and unique token hash
  of an invitation and the unique hash of a refresh token; the write of a document's
  version enforces the 32-bit range of its column. Foreign keys are not modelled, and
  the other NOT NULL columns are always given a value by the code.
\<close>

record database =
  users :: "User list"
  documents :: "Document list"
  permissions :: "DocumentPermission list"
  refresh_tokens :: "RefreshToken list"
  invitations :: "Invitation list"

text \<open>
  The exceptions: \<^verbatim>\<open>HTTPException\<close> with its status code and detail; SQLAlchemy's
  \<^verbatim>\<open>IntegrityError\<close> (a constraint refused at commit), \<^verbatim>\<open>DBAPIError\<close> (a value the
  driver refuses for its column, here an integer outside the 32-bit range) and
  \<^verbatim>\<open>MultipleResultsFound\<close>; Python's \<^verbatim>\<open>OverflowError\<close> of date arithmetic.
\<close>

datatype error =
    HTTPException nat string
  | IntegrityError
  | MultipleResultsFound
  | DBAPIError
  | OverflowError

text \<open>\<^verbatim>\<open>Result.scalar_one_or_none()\<close>: no row, the one row, or MultipleResultsFound.\<close>

fun scalar_one_or_none :: "'a list \<Rightarrow> error + 'a option" where
  "scalar_one_or_none [] = Inr None"
| "scalar_one_or_none [x] = Inr (Some x)"
| "scalar_one_or_none (x # y # zs) = Inl MultipleResultsFound"

section \<open>Document service (Backend/app/services/document.py)\<close>

definition get_document_by_id :: "database \<Rightarrow> uuid \<Rightarrow> bool \<Rightarrow> error + Document option" where
  "get_document_by_id db document_id include_archived =
     scalar_one_or_none
       (filter (\<lambda>d. d_id d = document_id \<and> (include_archived \<or> d_is_archived d = False))
          (documents db))"

text \<open>
  \<^verbatim>\<open>delete_document\<close>: archiving by default; a hard delete removes the row, and the
  relationships' cascades remove the document's permissions and invitations with it.
\<close>

definition delete_document :: "database \<Rightarrow> Document \<Rightarrow> bool \<Rightarrow> error + bool \<times> database" where
  "delete_document db document soft_delete =
     (if soft_delete
      then Inr (True,
             db\<lparr>documents :=
                  map (\<lambda>d. if d_id d = d_id document then d\<lparr>d_is_archived := True\<rparr> else d)
                    (documents db)\<rparr>)
      else Inr (True,
             db\<lparr>documents := filter (\<lambda>d. d_id d \<noteq> d_id document) (documents db),
                permissions :=
                  filter (\<lambda>p. p_document_id p \<noteq> d_id document) (permissions db),
                invitations :=
                  filter (\<lambda>i. i_document_id i \<noteq> d_id document) (invitations db)\<rparr>))"

definition get_user_permission ::
  "database \<Rightarrow> uuid \<Rightarrow> uuid \<Rightarrow> error + DocumentPermission option" where
  "get_user_permission db document_id user_id =
     scalar_one_or_none
       (filter (\<lambda>p. p_document_id p = document_id \<and> p_user_id p = user_id) (permissions db))"

definition get_user_role :: "database \<Rightarrow> uuid \<Rightarrow> uuid \<Rightarrow> error + DocumentRole option" where
  "get_user_role db document_id user_id =
     (case get_user_permission db document_id user_id of
        Inl e \<Rightarrow> Inl e
      | Inr permission \<Rightarrow> Inr (map_option p_role permission))"

text \<open>The dictionary \<^verbatim>\<open>role_hierarchy\<close> of \<^verbatim>\<open>check_access\<close>; every role is a key.\<close>

fun role_hierarchy :: "DocumentRole \<Rightarrow> nat" where
  "role_hierarchy VIEWER = 1"
| "role_hierarchy EDITOR = 2"
| "role_hierarchy OWNER = 3"

definition check_access :: "database \<Rightarrow> uuid \<Rightarrow> uuid \<Rightarrow> DocumentRole \<Rightarrow> error + bool" where
  "check_access db document_id user_id required_role =
     (case get_user_role db document_id user_id of
        Inl e \<Rightarrow> Inl e
      | Inr None \<Rightarrow>
          (case get_document_by_id db document_id False of
             Inl e \<Rightarrow> Inl e
           | Inr None \<Rightarrow> Inr False
           | Inr (Some doc) \<Rightarrow>
               if d_is_public doc \<and> required_role = VIEWER then Inr True else Inr False)
      | Inr (Some role) \<Rightarrow> Inr (role_hierarchy role \<ge> role_hierarchy required_role))"

text \<open>
  Inserting a permission row. The table has the primary key \<^verbatim>\<open>id\<close> and the unique
  constraint \<^verbatim>\<open>uq_document_user_permission\<close> on (document_id, user_id): a commit that
  would break either raises IntegrityError and stores nothing.
\<close>

definition permission_clash :: "DocumentPermission \<Rightarrow> DocumentPermission \<Rightarrow> bool" where
  "permission_clash p q \<longleftrightarrow>
     p_id q = p_id p \<or> (p_document_id q = p_document_id p \<and> p_user_id q = p_user_id p)"

definition add_permission :: "database \<Rightarrow> DocumentPermission \<Rightarrow> error + database" where
  "add_permission db p =
     (if list_ex (permission_clash p) (permissions db) then Inl IntegrityError
      else Inr (db\<lparr>permissions := permissions db @ [p]\<rparr>))"

definition grant_permission ::
  "database \<Rightarrow> uuid \<Rightarrow> uuid \<Rightarrow> DocumentRole \<Rightarrow> uuid \<Rightarrow> datetime \<Rightarrow> uuid
     \<Rightarrow> error + DocumentPermission \<times> database" where
  "grant_permission db document_id user_id role granted_by_id now new_id =
     (case get_user_permission db document_id user_id of
        Inl e \<Rightarrow> Inl e
      | Inr (Some existing) \<Rightarrow>
          Inr (existing\<lparr>p_role := role, p_granted_at := now,
                        p_granted_by_id := Some granted_by_id\<rparr>,
               db\<lparr>permissions :=
                    map (\<lambda>p. if p_id p = p_id existing
                              then p\<lparr>p_role := role, p_granted_at := now,
                                     p_granted_by_id := Some granted_by_id\<rparr>
                              else p)
                      (permissions db)\<rparr>)
      | Inr None \<Rightarrow>
          (let permission = \<lparr>p_id = new_id, p_document_id = document_id, p_user_id = user_id,
                             p_role = role, p_granted_at = now,
                             p_granted_by_id = Some granted_by_id\<rparr>
           in case add_permission db permission of
                Inl e \<Rightarrow> Inl e
              | Inr db' \<Rightarrow> Inr (permission, db')))"

definition revoke_permission :: "database \<Rightarrow> uuid \<Rightarrow> uuid \<Rightarrow> error + bool \<times> database" where
  "revoke_permission db document_id user_id =
     (case get_user_permission db document_id user_id of
        Inl e \<Rightarrow> Inl e
      | Inr None \<Rightarrow> Inr (False, db)
      | Inr (Some permission) \<Rightarrow>
          if p_role permission = OWNER then Inr (False, db)
          else Inr (True,
                 db\<lparr>permissions :=
                      filter (\<lambda>p. p_id p \<noteq> p_id permission) (permissions db)\<rparr>))"

text \<open>
  \<^verbatim>\<open>update_crdt_state\<close> returns the updated document, or None both when the
  document is not found and on a version conflict. \<^verbatim>\<open>crdt_version\<close> is a Python
  \<^verbatim>\<open>int\<close> in memory and a 32-bit INTEGER column in the table: a commit of a version
  outside the column's range raises and stores nothing.
\<close>

definition update_crdt_state ::
  "database \<Rightarrow> uuid \<Rightarrow> bytes \<Rightarrow> int option \<Rightarrow> datetime \<Rightarrow> error + Document option \<times> database" where
  "update_crdt_state db document_id crdt_state expected_version now =
     (case get_document_by_id db document_id False of
        Inl e \<Rightarrow> Inl e
      | Inr None \<Rightarrow> Inr (None, db)
      | Inr (Some document) \<Rightarrow>
          if expected_version \<noteq> None \<and> Some (d_crdt_version document) \<noteq> expected_version
          then Inr (None, db)
          else if d_crdt_version document + 1 < int32_min \<or>
                  int32_max < d_crdt_version document + 1
          then Inl DBAPIError
          else
            Inr (Some (document\<lparr>d_crdt_state := Some crdt_state,
                                d_crdt_version := d_crdt_version document + 1,
                                d_last_edited_at := Some now\<rparr>),
                 db\<lparr>documents :=
                      map (\<lambda>d. if d_id d = d_id document
                                then d\<lparr>d_crdt_state := Some crdt_state,
                                       d_crdt_version := d_crdt_version document + 1,
                                       d_last_edited_at := Some now\<rparr>
                                else d)
                        (documents db)\<rparr>))"

definition get_crdt_state :: "database \<Rightarrow> uuid \<Rightarrow> error + (bytes option \<times> int) option" where
  "get_crdt_state db document_id =
     (case get_document_by_id db document_id False of
        Inl e \<Rightarrow> Inl e
      | Inr None \<Rightarrow> Inr None
      | Inr (Some document) \<Rightarrow> Inr (Some (d_crdt_state document, d_crdt_version document)))"

text \<open>
  The dependency \<^verbatim>\<open>DocumentAccessChecker\<close> (Backend/app/dependencies.py), which runs
  before the body of a route that declares it.
\<close>

fun role_value :: "DocumentRole \<Rightarrow> string" where
  "role_value OWNER = ''OWNER''"
| "role_value EDITOR = ''EDITOR''"
| "role_value VIEWER = ''VIEWER''"

definition DocumentAccessChecker ::
  "DocumentRole \<Rightarrow> database \<Rightarrow> uuid \<Rightarrow> User \<Rightarrow> error + unit" where
  "DocumentAccessChecker required_role db document_id current_user =
     (case check_access db document_id (u_id current_user) required_role of
        Inl e \<Rightarrow> Inl e
      | Inr has_access \<Rightarrow>
          if has_access then Inr ()
          else Inl (HTTPException 403
                 (''Insufficient permissions. Required role: '' @ role_value required_role)))"

text \<open>The permission routes of Backend/app/routers/documents.py.\<close>

record DocumentPermissionCreate =
  pc_user_id :: uuid
  pc_role :: DocumentRole

definition grant_permission_route ::
  "database \<Rightarrow> uuid \<Rightarrow> DocumentPermissionCreate \<Rightarrow> User \<Rightarrow> datetime \<Rightarrow> uuid
     \<Rightarrow> error + DocumentPermission \<times> database" where
  "grant_permission_route db document_id permission_data current_user now new_id =
     (case DocumentAccessChecker OWNER db document_id current_user of
        Inl e \<Rightarrow> Inl e
      | Inr _ \<Rightarrow>
          if pc_role permission_data = OWNER
          then Inl (HTTPException 400
                 ''Cannot grant OWNER role. Use transfer ownership instead.'')
          else grant_permission db document_id (pc_user_id permission_data)
                 (pc_role permission_data) (u_id current_user) now new_id)"

definition revoke_permission_route ::
  "database \<Rightarrow> uuid \<Rightarrow> uuid \<Rightarrow> User \<Rightarrow> error + unit \<times> database" where
  "revoke_permission_route db document_id user_id current_user =
     (case DocumentAccessChecker OWNER db document_id current_user of
        Inl e \<Rightarrow> Inl e
      | Inr _ \<Rightarrow>
          (case revoke_permission db document_id user_id of
             Inl e \<Rightarrow> Inl e
           | Inr (revoked, db') \<Rightarrow>
               if revoked then Inr ((), db')
               else Inl (HTTPException 400
                 ''Cannot revoke permission. User may be the owner or not have permission.'')))"

section \<open>Invitation service (Backend/app/services/invitation.py)\<close>

definition INVITATION_EXPIRE_DAYS :: int where
  "INVITATION_EXPIRE_DAYS = 7"

text \<open>
  Inserting an invitation row. The table has the primary key \<^verbatim>\<open>id\<close>, the column
  \<^verbatim>\<open>token_hash\<close> that is NOT NULL and unique, and the partial unique index
  \<^verbatim>\<open>uq_document_invitee_email_pending\<close> on (document_id, invitee_email) over the rows
  whose status is PENDING.
\<close>

definition invitation_clash :: "Invitation \<Rightarrow> Invitation \<Rightarrow> bool" where
  "invitation_clash i j \<longleftrightarrow>
     i_id j = i_id i \<or> i_token_hash j = i_token_hash i \<or>
     (i_status i = PENDING \<and> i_status j = PENDING \<and>
      i_document_id j = i_document_id i \<and> i_invitee_email j = i_invitee_email i)"

definition add_invitation :: "database \<Rightarrow> Invitation \<Rightarrow> error + database" where
  "add_invitation db i =
     (if i_token_hash i = None \<or> list_ex (invitation_clash i) (invitations db)
      then Inl IntegrityError
      else Inr (db\<lparr>invitations := invitations db @ [i]\<rparr>))"

text \<open>
  \<^verbatim>\<open>datetime.now(timezone.utc) + timedelta(days=days)\<close>: OverflowError when the number
  of days is beyond a \<^verbatim>\<open>timedelta\<close>, or the sum beyond a \<^verbatim>\<open>datetime\<close>.
\<close>

definition datetime_add_days :: "datetime \<Rightarrow> int \<Rightarrow> error + datetime" where
  "datetime_add_days now days =
     (if days < - timedelta_max_days \<or> timedelta_max_days < days then Inl OverflowError
      else if now + timedelta_days days < datetime_min \<or>
              datetime_max < now + timedelta_days days
      then Inl OverflowError
      else Inr (now + timedelta_days days))"

text \<open>
  \<^verbatim>\<open>create_invitation\<close>. Both branches compute the new expiry after the two lookups
  and before anything is written (the update branch in its third assignment, the insert
  branch in the constructor call), so it is computed once here, between the lookups and
  the branches. The new row is built without a token hash.
\<close>

definition create_invitation ::
  "database \<Rightarrow> uuid \<Rightarrow> uuid \<Rightarrow> string \<Rightarrow> DocumentRole \<Rightarrow> string option \<Rightarrow> int option
     \<Rightarrow> datetime \<Rightarrow> uuid \<Rightarrow> error + Invitation \<times> database" where
  "create_invitation db document_id invited_by_id invitee_email role message expire_days
       now new_id =
     (let days = (case expire_days of
                    None \<Rightarrow> INVITATION_EXPIRE_DAYS
                  | Some n \<Rightarrow> if n = 0 then INVITATION_EXPIRE_DAYS else n)
      in case scalar_one_or_none (filter (\<lambda>u. u_email u = invitee_email) (users db)) of
           Inl e \<Rightarrow> Inl e
         | Inr invitee \<Rightarrow>
             (case scalar_one_or_none
                     (filter (\<lambda>i. i_document_id i = document_id \<and>
                                   i_invitee_email i = invitee_email \<and>
                                   i_status i = PENDING)
                        (invitations db)) of
                Inl e \<Rightarrow> Inl e
              | Inr found \<Rightarrow>
                  (case datetime_add_days now days of
                     Inl e \<Rightarrow> Inl e
                   | Inr expires_at \<Rightarrow>
                       (case found of
                          Some existing \<Rightarrow>
                            Inr (existing\<lparr>i_role := role, i_message := message,
                                          i_expires_at := expires_at,
                                          i_invited_by_id := invited_by_id\<rparr>,
                                 db\<lparr>invitations :=
                                      map (\<lambda>i. if i_id i = i_id existing
                                                then i\<lparr>i_role := role, i_message := message,
                                                       i_expires_at := expires_at,
                                                       i_invited_by_id := invited_by_id\<rparr>
                                                else i)
                                        (invitations db)\<rparr>)
                        | None \<Rightarrow>
                            (let invitation =
                                   \<lparr>i_id = new_id, i_document_id = document_id,
                                    i_invited_by_id = invited_by_id,
                                    i_invitee_email = invitee_email,
                                    i_invitee_id = map_option u_id invitee, i_role = role,
                                    i_status = PENDING, i_token_hash = None,
                                    i_message = message, i_expires_at = expires_at,
                                    i_responded_at = None\<rparr>
                             in case add_invitation db invitation of
                                  Inl e \<Rightarrow> Inl e
                                | Inr db' \<Rightarrow> Inr (invitation, db'))))))"

definition get_invitation_by_id :: "database \<Rightarrow> uuid \<Rightarrow> error + Invitation option" where
  "get_invitation_by_id db invitation_id =
     scalar_one_or_none (filter (\<lambda>i. i_id i = invitation_id) (invitations db))"

text \<open>The listing is ordered by creation time in the source; the order is not modelled.\<close>

definition get_pending_invitations_for_user ::
  "database \<Rightarrow> uuid \<Rightarrow> string \<Rightarrow> datetime \<Rightarrow> Invitation list" where
  "get_pending_invitations_for_user db user_id user_email now =
     filter (\<lambda>i. i_status i = PENDING \<and> i_expires_at i > now \<and>
                 (i_invitee_id i = Some user_id \<or> i_invitee_email i = user_email))
       (invitations db)"

definition accept_invitation ::
  "database \<Rightarrow> Invitation \<Rightarrow> uuid \<Rightarrow> datetime \<Rightarrow> uuid
     \<Rightarrow> error + DocumentPermission \<times> database" where
  "accept_invitation db invitation user_id now new_id =
     (let db1 = db\<lparr>invitations :=
                     map (\<lambda>i. if i_id i = i_id invitation
                               then i\<lparr>i_status := ACCEPTED, i_responded_at := Some now,
                                      i_invitee_id := Some user_id\<rparr>
                               else i)
                       (invitations db)\<rparr>;
          permission = \<lparr>p_id = new_id, p_document_id = i_document_id invitation,
                        p_user_id = user_id, p_role = i_role invitation,
                        p_granted_at = now,
                        p_granted_by_id = Some (i_invited_by_id invitation)\<rparr>
      in case add_permission db1 permission of
           Inl e \<Rightarrow> Inl e
         | Inr db' \<Rightarrow> Inr (permission, db'))"

definition decline_invitation ::
  "database \<Rightarrow> Invitation \<Rightarrow> datetime \<Rightarrow> error + Invitation \<times> database" where
  "decline_invitation db invitation now =
     Inr (invitation\<lparr>i_status := DECLINED, i_responded_at := Some now\<rparr>,
          db\<lparr>invitations :=
               map (\<lambda>i. if i_id i = i_id invitation
                         then i\<lparr>i_status := DECLINED, i_responded_at := Some now\<rparr>
                         else i)
                 (invitations db)\<rparr>)"

definition cancel_invitation :: "database \<Rightarrow> Invitation \<Rightarrow> error + bool \<times> database" where
  "cancel_invitation db invitation =
     (if i_status invitation \<noteq> PENDING then Inr (False, db)
      else Inr (True,
             db\<lparr>invitations :=
                  filter (\<lambda>i. i_id i \<noteq> i_id invitation) (invitations db)\<rparr>))"

text \<open>
  The sweep selects the PENDING rows whose expiry is not after \<open>now\<close> and sets each
  selected row to EXPIRED, counting them.
\<close>

definition expire_old_invitations :: "database \<Rightarrow> datetime \<Rightarrow> error + nat \<times> database" where
  "expire_old_invitations db now =
     Inr (length (filter (\<lambda>i. i_status i = PENDING \<and> i_expires_at i \<le> now)
                    (invitations db)),
          db\<lparr>invitations :=
               map (\<lambda>i. if i_status i = PENDING \<and> i_expires_at i \<le> now
                         then i\<lparr>i_status := EXPIRED\<rparr> else i)
                 (invitations db)\<rparr>)"

definition can_invite_to_document :: "database \<Rightarrow> uuid \<Rightarrow> uuid \<Rightarrow> error + bool" where
  "can_invite_to_document db document_id inviter_id =
     (case get_user_role db document_id inviter_id of
        Inl e \<Rightarrow> Inl e
      | Inr role \<Rightarrow> Inr (role = Some OWNER \<or> role = Some EDITOR))"

definition is_already_collaborator :: "database \<Rightarrow> uuid \<Rightarrow> string \<Rightarrow> error + bool" where
  "is_already_collaborator db document_id email =
     (case scalar_one_or_none (filter (\<lambda>u. u_email u = email) (users db)) of
        Inl e \<Rightarrow> Inl e
      | Inr None \<Rightarrow> Inr False
      | Inr (Some user) \<Rightarrow>
          (case scalar_one_or_none
                  (filter (\<lambda>p. p_document_id p = document_id \<and> p_user_id p = u_id user)
                     (permissions db)) of
             Inl e \<Rightarrow> Inl e
           | Inr perm \<Rightarrow> Inr (perm \<noteq> None)))"

section \<open>Invitation routes (Backend/app/routers/invitations.py)\<close>

text \<open>The request body \<^verbatim>\<open>InvitationCreate\<close> (Backend/app/schemas/invitation.py).\<close>

record InvitationCreate =
  ic_document_id :: uuid
  ic_invitee_email :: string
  ic_role :: DocumentRole
  ic_message :: "string option"

definition create_invitation_route ::
  "database \<Rightarrow> InvitationCreate \<Rightarrow> User \<Rightarrow> datetime \<Rightarrow> uuid
     \<Rightarrow> error + Invitation \<times> database" where
  "create_invitation_route db invitation_data current_user now new_id =
     (case can_invite_to_document db (ic_document_id invitation_data) (u_id current_user) of
        Inl e \<Rightarrow> Inl e
      | Inr can_invite \<Rightarrow>
          if \<not> can_invite
          then Inl (HTTPException 403
                 (''You don'' @ [CHR 0x27] @
                  ''t have permission to invite users to this document''))
          else
            (case is_already_collaborator db (ic_document_id invitation_data)
                    (ic_invitee_email invitation_data) of
               Inl e \<Rightarrow> Inl e
             | Inr is_collaborator \<Rightarrow>
                 if is_collaborator
                 then Inl (HTTPException 400
                        ''User is already a collaborator on this document'')
                 else if ic_invitee_email invitation_data = u_email current_user
                 then Inl (HTTPException 400 ''You cannot invite yourself'')
                 else create_invitation db (ic_document_id invitation_data)
                        (u_id current_user) (ic_invitee_email invitation_data)
                        (ic_role invitation_data) (ic_message invitation_data) None
                        now new_id))"

fun status_value :: "InvitationStatus \<Rightarrow> string" where
  "status_value PENDING = ''PENDING''"
| "status_value ACCEPTED = ''ACCEPTED''"
| "status_value DECLINED = ''DECLINED''"
| "status_value EXPIRED = ''EXPIRED''"

text \<open>\<^verbatim>\<open>str.lower()\<close> on the ASCII letters, which is all a status value holds.\<close>

definition lower :: "string \<Rightarrow> string" where
  "lower s =
     map (\<lambda>c. if 65 \<le> (of_char c :: nat) \<and> (of_char c :: nat) \<le> 90
               then char_of (of_char c + (32 :: nat)) else c) s"

datatype respond_response =
    Invitation_accepted DocumentRole uuid
  | Invitation_declined

definition respond_to_invitation ::
  "database \<Rightarrow> uuid \<Rightarrow> bool \<Rightarrow> User \<Rightarrow> datetime \<Rightarrow> uuid
     \<Rightarrow> error + respond_response \<times> database" where
  "respond_to_invitation db invitation_id accept current_user now new_id =
     (case get_invitation_by_id db invitation_id of
        Inl e \<Rightarrow> Inl e
      | Inr None \<Rightarrow> Inl (HTTPException 404 ''Invitation not found'')
      | Inr (Some invitation) \<Rightarrow>
          if \<not> (i_invitee_id invitation = Some (u_id current_user) \<or>
                i_invitee_email invitation = u_email current_user)
          then Inl (HTTPException 403 ''This invitation is not for you'')
          else if i_status invitation \<noteq> PENDING
          then Inl (HTTPException 400
                 (''Invitation has already been '' @
                  lower (status_value (i_status invitation))))
          else if accept
          then (case accept_invitation db invitation (u_id current_user) now new_id of
                  Inl e \<Rightarrow> Inl e
                | Inr (permission, db') \<Rightarrow>
                    Inr (Invitation_accepted (p_role permission)
                           (i_document_id invitation), db'))
          else (case decline_invitation db invitation now of
                  Inl e \<Rightarrow> Inl e
                | Inr (_, db') \<Rightarrow> Inr (Invitation_declined, db')))"

definition cancel_invitation_route ::
  "database \<Rightarrow> uuid \<Rightarrow> User \<Rightarrow> error + unit \<times> database" where
  "cancel_invitation_route db invitation_id current_user =
     (case get_invitation_by_id db invitation_id of
        Inl e \<Rightarrow> Inl e
      | Inr None \<Rightarrow> Inl (HTTPException 404 ''Invitation not found'')
      | Inr (Some invitation) \<Rightarrow>
          if i_invited_by_id invitation \<noteq> u_id current_user
          then Inl (HTTPException 403 ''Only the inviter can cancel the invitation'')
          else (case cancel_invitation db invitation of
                  Inl e \<Rightarrow> Inl e
                | Inr (cancelled, db') \<Rightarrow>
                    if cancelled then Inr ((), db')
                    else Inl (HTTPException 400
                      ''Cannot cancel invitation. It may have already been responded to.'')))"

section \<open>Refresh tokens (Backend/app/services/auth.py)\<close>

text \<open>
  \<^verbatim>\<open>hash_token\<close> is SHA-256 from \<^verbatim>\<open>hashlib\<close> and the secret comes from
  \<^verbatim>\<open>secrets.token_urlsafe(64)\<close>; both are outside the repository. The hash is a
  parameter \<open>hash_token\<close> of every function that calls it, the freshly drawn secret a
  parameter \<open>token\<close>, and the setting \<^verbatim>\<open>REFRESH_TOKEN_EXPIRE_DAYS\<close> (30 unless the
  environment overrides it) a parameter too. The table has the primary key \<^verbatim>\<open>id\<close>
  and a unique \<^verbatim>\<open>token_hash\<close> column.
\<close>

definition refresh_token_clash :: "RefreshToken \<Rightarrow> RefreshToken \<Rightarrow> bool" where
  "refresh_token_clash r t \<longleftrightarrow> t_id t = t_id r \<or> t_token_hash t = t_token_hash r"

definition add_refresh_token :: "database \<Rightarrow> RefreshToken \<Rightarrow> error + database" where
  "add_refresh_token db r =
     (if list_ex (refresh_token_clash r) (refresh_tokens db) then Inl IntegrityError
      else Inr (db\<lparr>refresh_tokens := refresh_tokens db @ [r]\<rparr>))"

definition create_refresh_token ::
  "(string \<Rightarrow> string) \<Rightarrow> int \<Rightarrow> database \<Rightarrow> uuid \<Rightarrow> string \<Rightarrow> datetime \<Rightarrow> uuid
     \<Rightarrow> error + string \<times> database" where
  "create_refresh_token hash_token expire_days db user_id token now new_id =
     (let refresh_token =
            \<lparr>t_id = new_id, t_user_id = user_id, t_token_hash = hash_token token,
             t_is_revoked = False, t_expires_at = now + timedelta_days expire_days,
             t_last_used_at = None, t_revoked_at = None\<rparr>
      in case add_refresh_token db refresh_token of
           Inl e \<Rightarrow> Inl e
         | Inr db' \<Rightarrow> Inr (token, db'))"

definition verify_refresh_token ::
  "(string \<Rightarrow> string) \<Rightarrow> database \<Rightarrow> string \<Rightarrow> datetime
     \<Rightarrow> error + RefreshToken option \<times> database" where
  "verify_refresh_token hash_token db token now =
     (case scalar_one_or_none
             (filter (\<lambda>t. t_token_hash t = hash_token token \<and> t_is_revoked t = False \<and>
                           t_expires_at t > now)
                (refresh_tokens db)) of
        Inl e \<Rightarrow> Inl e
      | Inr None \<Rightarrow> Inr (None, db)
      | Inr (Some refresh_token) \<Rightarrow>
          Inr (Some (refresh_token\<lparr>t_last_used_at := Some now\<rparr>),
               db\<lparr>refresh_tokens :=
                    map (\<lambda>t. if t_id t = t_id refresh_token
                              then t\<lparr>t_last_used_at := Some now\<rparr> else t)
                      (refresh_tokens db)\<rparr>))"

definition revoke_refresh_token ::
  "(string \<Rightarrow> string) \<Rightarrow> database \<Rightarrow> string \<Rightarrow> datetime \<Rightarrow> error + bool \<times> database" where
  "revoke_refresh_token hash_token db token now =
     (case scalar_one_or_none
             (filter (\<lambda>t. t_token_hash t = hash_token token) (refresh_tokens db)) of
        Inl e \<Rightarrow> Inl e
      | Inr None \<Rightarrow> Inr (False, db)
      | Inr (Some refresh_token) \<Rightarrow>
          Inr (True,
               db\<lparr>refresh_tokens :=
                    map (\<lambda>t. if t_id t = t_id refresh_token
                              then t\<lparr>t_is_revoked := True, t_revoked_at := Some now\<rparr>
                              else t)
                      (refresh_tokens db)\<rparr>))"

text \<open>
  \<^verbatim>\<open>revoke_all_user_tokens\<close> selects the user's unrevoked rows and revokes each
  selected row, counting them; the loop's calls of the clock are one \<open>now\<close>.
\<close>

definition revoke_all_user_tokens :: "database \<Rightarrow> uuid \<Rightarrow> datetime \<Rightarrow> error + nat \<times> database" where
  "revoke_all_user_tokens db user_id now =
     Inr (length (filter (\<lambda>t. t_user_id t = user_id \<and> t_is_revoked t = False)
                    (refresh_tokens db)),
          db\<lparr>refresh_tokens :=
               map (\<lambda>t. if t_user_id t = user_id \<and> t_is_revoked t = False
                         then t\<lparr>t_is_revoked := True, t_revoked_at := Some now\<rparr>
                         else t)
                 (refresh_tokens db)\<rparr>)"

section \<open>Sequences of requests\<close>

text \<open>
  The requests that write the permission and invitation tables, each with the values
  its handler draws from the environment (the authenticated user, the clock, a fresh
  primary key). A request whose handler raises leaves the database as it was.
\<close>

datatype request =
    Create_invitation InvitationCreate User datetime uuid
  | Respond_to_invitation uuid bool User datetime uuid
  | Cancel_invitation uuid User
  | Expire_old_invitations datetime
  | Grant_permission uuid DocumentPermissionCreate User datetime uuid
  | Revoke_permission uuid uuid User

definition committed :: "database \<Rightarrow> error + 'a \<times> database \<Rightarrow> database" where
  "committed db result = (case result of Inl e \<Rightarrow> db | Inr (x, db') \<Rightarrow> db')"

fun handle :: "database \<Rightarrow> request \<Rightarrow> database" where
  "handle db (Create_invitation invitation_data current_user now new_id) =
     committed db (create_invitation_route db invitation_data current_user now new_id)"
| "handle db (Respond_to_invitation invitation_id accept current_user now new_id) =
     committed db (respond_to_invitation db invitation_id accept current_user now new_id)"
| "handle db (Cancel_invitation invitation_id current_user) =
     committed db (cancel_invitation_route db invitation_id current_user)"
| "handle db (Expire_old_invitations now) =
     committed db (expire_old_invitations db now)"
| "handle db (Grant_permission document_id permission_data current_user now new_id) =
     committed db (grant_permission_route db document_id permission_data current_user now new_id)"
| "handle db (Revoke_permission document_id user_id current_user) =
     committed db (revoke_permission_route db document_id user_id current_user)"

fun run_requests :: "database \<Rightarrow> request list \<Rightarrow> database" where
  "run_requests db [] = db"
| "run_requests db (r # rs) = run_requests (handle db r) rs"

text \<open>The calls of the refresh-token service, likewise.\<close>

datatype auth_call =
    Create_refresh_token uuid string datetime uuid
  | Verify_refresh_token string datetime
  | Revoke_refresh_token string datetime
  | Revoke_all_user_tokens uuid datetime

fun auth_handle :: "(string \<Rightarrow> string) \<Rightarrow> int \<Rightarrow> database \<Rightarrow> auth_call \<Rightarrow> database" where
  "auth_handle hash_token expire_days db (Create_refresh_token user_id token now new_id) =
     committed db (create_refresh_token hash_token expire_days db user_id token now new_id)"
| "auth_handle hash_token expire_days db (Verify_refresh_token token now) =
     committed db (verify_refresh_token hash_token db token now)"
| "auth_handle hash_token expire_days db (Revoke_refresh_token token now) =
     committed db (revoke_refresh_token hash_token db token now)"
| "auth_handle hash_token expire_days db (Revoke_all_user_tokens user_id now) =
     committed db (revoke_all_user_tokens db user_id now)"

fun auth_run :: "(string \<Rightarrow> string) \<Rightarrow> int \<Rightarrow> database \<Rightarrow> auth_call list \<Rightarrow> database" where
  "auth_run hash_token expire_days db [] = db"
| "auth_run hash_token expire_days db (c # cs) =
     auth_run hash_token expire_days (auth_handle hash_token expire_days db c) cs"

text \<open>
  A call revokes the token \<open>token\<close> of user \<open>user_id\<close> when it is \<^verbatim>\<open>revoke\<close> of a
  secret with the same hash, or \<^verbatim>\<open>revoke_all\<close> for that user.
\<close>

fun revokes :: "(string \<Rightarrow> string) \<Rightarrow> string \<Rightarrow> uuid \<Rightarrow> auth_call \<Rightarrow> bool" where
  "revokes hash_token token user_id (Revoke_refresh_token token' now) =
     (hash_token token' = hash_token token)"
| "revokes hash_token token user_id (Revoke_all_user_tokens user_id' now) =
     (user_id' = user_id)"
| "revokes hash_token token user_id (Create_refresh_token user_id' token' now new_id) = False"
| "revokes hash_token token user_id (Verify_refresh_token token' now) = False"

section \<open>Vocabulary of the properties\<close>

text \<open>\<open>doc\<close> is the row of the documents table with primary key \<open>D\<close>.\<close>

definition document_row :: "database \<Rightarrow> uuid \<Rightarrow> Document \<Rightarrow> bool" where
  "document_row db D doc \<longleftrightarrow> filter (\<lambda>d. d_id d = D) (documents db) = [doc]"

text \<open>The permission rows of the pair (document \<open>D\<close>, user \<open>U\<close>).\<close>

definition permission_rows :: "database \<Rightarrow> uuid \<Rightarrow> uuid \<Rightarrow> DocumentPermission list" where
  "permission_rows db D U =
     filter (\<lambda>p. p_document_id p = D \<and> p_user_id p = U) (permissions db)"

text \<open>\<open>invitation\<close> is the row of the invitations table with primary key \<open>X\<close>.\<close>

definition invitation_row :: "database \<Rightarrow> uuid \<Rightarrow> Invitation \<Rightarrow> bool" where
  "invitation_row db X invitation \<longleftrightarrow>
     filter (\<lambda>i. i_id i = X) (invitations db) = [invitation]"

text \<open>The test of \<^verbatim>\<open>respond_to_invitation\<close> for "the current user is the invitee".\<close>

definition is_invitee :: "Invitation \<Rightarrow> User \<Rightarrow> bool" where
  "is_invitee invitation u \<longleftrightarrow>
     i_invitee_id invitation = Some (u_id u) \<or> i_invitee_email invitation = u_email u"

text \<open>The PENDING invitations of the pair (document \<open>D\<close>, invitee email \<open>E\<close>).\<close>

definition pending_rows :: "database \<Rightarrow> uuid \<Rightarrow> string \<Rightarrow> Invitation list" where
  "pending_rows db D E =
     filter (\<lambda>i. i_document_id i = D \<and> i_invitee_email i = E \<and> i_status i = PENDING)
       (invitations db)"

text \<open>No two PENDING invitations share their (document, invitee email) pair.\<close>

definition pending_unique :: "database \<Rightarrow> bool" where
  "pending_unique db \<longleftrightarrow>
     distinct (map (\<lambda>i. (i_document_id i, i_invitee_email i))
                 (filter (\<lambda>i. i_status i = PENDING) (invitations db)))"

text \<open>
  \<open>r\<close> is the refresh-token row of the secret \<open>token\<close>: the only row with its hash
  and the only row with the primary key \<open>tid\<close>.
\<close>

definition token_row ::
  "(string \<Rightarrow> string) \<Rightarrow> database \<Rightarrow> string \<Rightarrow> uuid \<Rightarrow> RefreshToken \<Rightarrow> bool" where
  "token_row hash_token db token tid r \<longleftrightarrow>
     filter (\<lambda>t. t_token_hash t = hash_token token \<or> t_id t = tid) (refresh_tokens db) = [r]
     \<and> t_token_hash r = hash_token token \<and> t_id r = tid"

section \<open>A small database for the concrete cases\<close>

text \<open>
  Alice owns three documents (a private one, a public one and an archived public one);
  Dave is an editor of the first; Bob and Carol have accounts and no permission.
\<close>

definition alice :: User where
  "alice = \<lparr>u_id = 1, u_email = ''alice@example.com'', u_is_active = True\<rparr>"

definition bob :: User where
  "bob = \<lparr>u_id = 2, u_email = ''bob@example.com'', u_is_active = True\<rparr>"

definition carol :: User where
  "carol = \<lparr>u_id = 3, u_email = ''carol@example.com'', u_is_active = True\<rparr>"

definition dave :: User where
  "dave = \<lparr>u_id = 4, u_email = ''dave@example.com'', u_is_active = True\<rparr>"

definition private_doc :: Document where
  "private_doc = \<lparr>d_id = 10, d_owner_id = 1, d_crdt_state = None, d_crdt_version = 0,
                   d_is_archived = False, d_is_public = False, d_last_edited_at = None\<rparr>"

definition public_doc :: Document where
  "public_doc = \<lparr>d_id = 11, d_owner_id = 1, d_crdt_state = None, d_crdt_version = 0,
                  d_is_archived = False, d_is_public = True, d_last_edited_at = None\<rparr>"

definition archived_doc :: Document where
  "archived_doc = \<lparr>d_id = 12, d_owner_id = 1, d_crdt_state = None, d_crdt_version = 0,
                    d_is_archived = True, d_is_public = True, d_last_edited_at = None\<rparr>"

definition owner_permission :: "uuid \<Rightarrow> uuid \<Rightarrow> DocumentPermission" where
  "owner_permission pid D =
     \<lparr>p_id = pid, p_document_id = D, p_user_id = 1, p_role = OWNER, p_granted_at = 0,
      p_granted_by_id = Some 1\<rparr>"

definition dave_permission :: DocumentPermission where
  "dave_permission =
     \<lparr>p_id = 23, p_document_id = 10, p_user_id = 4, p_role = EDITOR, p_granted_at = 0,
      p_granted_by_id = Some 1\<rparr>"

definition db0 :: database where
  "db0 = \<lparr>users = [alice, bob, carol, dave],
          documents = [private_doc, public_doc, archived_doc],
          permissions = [owner_permission 20 10, owner_permission 21 11,
                         owner_permission 22 12, dave_permission],
          refresh_tokens = [],
          invitations = []\<rparr>"

text \<open>
  A stored invitation: Bob is invited to the private document as an editor, by Alice,
  with its token hash in place (\<open>db_invited\<close>). In \<open>db_granted\<close> Alice has then also
  granted him VIEWER directly.
\<close>

definition bob_invitation :: Invitation where
  "bob_invitation =
     \<lparr>i_id = 30, i_document_id = 10, i_invited_by_id = 1,
      i_invitee_email = ''bob@example.com'', i_invitee_id = Some 2, i_role = EDITOR,
      i_status = PENDING, i_token_hash = Some ''5f2a'', i_message = None,
      i_expires_at = 604800000100, i_responded_at = None\<rparr>"

definition db_invited :: database where
  "db_invited = db0\<lparr>invitations := [bob_invitation]\<rparr>"

definition bob_viewer_permission :: DocumentPermission where
  "bob_viewer_permission =
     \<lparr>p_id = 40, p_document_id = 10, p_user_id = 2, p_role = VIEWER, p_granted_at = 150,
      p_granted_by_id = Some 1\<rparr>"

definition db_granted :: database where
  "db_granted = db_invited\<lparr>permissions := permissions db0 @ [bob_viewer_permission]\<rparr>"

text \<open>A document whose version counter has reached the top of its column.\<close>

definition full_doc :: Document where
  "full_doc = \<lparr>d_id = 13, d_owner_id = 1, d_crdt_state = Some ''abc'',
                d_crdt_version = 2147483647, d_is_archived = False, d_is_public = False,
                d_last_edited_at = Some 3\<rparr>"

definition db_full :: database where
  "db_full = db0\<lparr>documents := documents db0 @ [full_doc]\<rparr>"

text \<open>The state after Bob has accepted that invitation at time 200 (\<open>db_accepted\<close>).\<close>

definition bob_invitation_accepted :: Invitation where
  "bob_invitation_accepted =
     bob_invitation\<lparr>i_status := ACCEPTED, i_responded_at := Some 200, i_invitee_id := Some 2\<rparr>"

definition bob_editor_permission :: DocumentPermission where
  "bob_editor_permission =
     \<lparr>p_id = 41, p_document_id = 10, p_user_id = 2, p_role = EDITOR, p_granted_at = 200,
      p_granted_by_id = Some 1\<rparr>"

definition db_accepted :: database where
  "db_accepted = db0\<lparr>permissions := permissions db0 @ [bob_editor_permission],
                      invitations := [bob_invitation_accepted]\<rparr>"

text \<open>
  Bob's session: the row his login at time 0 stores for the secret \<open>''secret''\<close>, with
  list reversal standing in for the hash and a lifetime of 30 days.
\<close>

definition bob_token :: RefreshToken where
  "bob_token =
     \<lparr>t_id = 50, t_user_id = 2, t_token_hash = ''terces'', t_is_revoked = False,
      t_expires_at = 2592000000000, t_last_used_at = None, t_revoked_at = None\<rparr>"

definition db_session :: database where
  "db_session = db0\<lparr>refresh_tokens := [bob_token]\<rparr>"

section \<open>Lookups\<close>

lemma filter_conj_split: "filter (\<lambda>x. P x \<and> Q x) xs = filter Q (filter P xs)"
  by (induction xs) auto

lemma get_document_by_id_row:
  "document_row db D doc \<Longrightarrow>
   get_document_by_id db D False = Inr (if d_is_archived doc then None else Some doc)"
  by (simp add: get_document_by_id_def document_row_def filter_conj_split)

lemma get_user_role_none: "permission_rows db D U = [] \<Longrightarrow> get_user_role db D U = Inr None"
  by (simp add: get_user_role_def get_user_permission_def permission_rows_def)

lemma document_row_id: "document_row db D doc \<Longrightarrow> d_id doc = D"
proof -
  assume "document_row db D doc"
  then have "doc \<in> set (filter (\<lambda>d. d_id d = D) (documents db))"
    by (simp add: document_row_def)
  then show ?thesis by simp
qed

lemma filter_map_same_id:
  assumes "\<And>d. d_id (f d) = d_id d"
  shows "filter (\<lambda>d. d_id d = D) (map (\<lambda>d. if d_id d = D then f d else d) xs)
         = map f (filter (\<lambda>d. d_id d = D) xs)"
  using assms by (induction xs) auto

section \<open>Version-gated writes\<close>

lemma update_crdt_state_applies:
  assumes "document_row db D doc" and "d_is_archived doc = False"
    and "ev = None \<or> ev = Some (d_crdt_version doc)"
    and "int32_min \<le> d_crdt_version doc" and "d_crdt_version doc < int32_max"
  shows "\<exists>db'. update_crdt_state db D s ev now =
            Inr (Some (doc\<lparr>d_crdt_state := Some s, d_crdt_version := d_crdt_version doc + 1,
                           d_last_edited_at := Some now\<rparr>), db')
          \<and> document_row db' D (doc\<lparr>d_crdt_state := Some s,
                                   d_crdt_version := d_crdt_version doc + 1,
                                   d_last_edited_at := Some now\<rparr>)"
  using assms document_row_id[OF assms(1)]
  by (auto simp: update_crdt_state_def get_document_by_id_row document_row_def filter_map_same_id)

lemma update_crdt_state_conflict:
  assumes "document_row db D doc" and "d_is_archived doc = False" and "ev \<noteq> d_crdt_version doc"
  shows "update_crdt_state db D s (Some ev) now = Inr (None, db)"
  using assms by (simp add: update_crdt_state_def get_document_by_id_row)

lemma update_crdt_state_full:
  assumes "document_row db D doc" and "d_is_archived doc = False"
    and "ev = None \<or> ev = Some (d_crdt_version doc)" and "int32_max \<le> d_crdt_version doc"
  shows "update_crdt_state db D s ev now = Inl DBAPIError"
  using assms by (auto simp: update_crdt_state_def get_document_by_id_row)

text \<open>
  C1, as the code has it. Let \<open>doc\<close> be the row of document \<open>D\<close>, not archived, with
  stored version \<open>V\<close>. A write with an expected version other than \<open>V\<close> returns None and
  leaves the database as it was. When \<open>V\<close> lies in the 32-bit range of its column and
  below its maximum 2147483647, a write expecting \<open>V\<close> returns the document with the new
  state, version \<open>V + 1\<close> and the last-edited stamp; that document is then the stored
  row, and a read gives the new state at version \<open>V + 1\<close>. When \<open>V\<close> is the maximum,
  the write raises and stores nothing. From version 0: a write expecting 0 succeeds and
  leaves version 1, a second write expecting 0 is refused and applies nothing, and a
  write expecting 1 succeeds and leaves version 2.
  The claim says this of every document and every version; an archived document is not
  found by \<^verbatim>\<open>get_document_by_id\<close>, so a write to it applies nothing even when the
  expected version is the stored one, and the version column cannot hold 2147483648.
\<close>

theorem update_crdt_state_version_gate:
  assumes "document_row db D doc" and "d_is_archived doc = False"
  shows "(ev \<noteq> d_crdt_version doc \<longrightarrow> update_crdt_state db D s (Some ev) now = Inr (None, db))
    \<and> (int32_min \<le> d_crdt_version doc \<and> d_crdt_version doc < int32_max \<longrightarrow>
         (\<exists>db'. update_crdt_state db D s (Some (d_crdt_version doc)) now =
              Inr (Some (doc\<lparr>d_crdt_state := Some s, d_crdt_version := d_crdt_version doc + 1,
                             d_last_edited_at := Some now\<rparr>), db')
            \<and> document_row db' D
                 (doc\<lparr>d_crdt_state := Some s, d_crdt_version := d_crdt_version doc + 1,
                      d_last_edited_at := Some now\<rparr>)
            \<and> get_crdt_state db' D = Inr (Some (Some s, d_crdt_version doc + 1))))
    \<and> (d_crdt_version doc = int32_max \<longrightarrow>
         update_crdt_state db D s (Some (d_crdt_version doc)) now = Inl DBAPIError)
    \<and> (d_crdt_version doc = 0 \<longrightarrow>
         (\<exists>doc1 db1 doc2 db2.
            update_crdt_state db D s1 (Some 0) t1 = Inr (Some doc1, db1) \<and>
            document_row db1 D doc1 \<and> d_last_edited_at doc1 = Some t1 \<and>
            get_crdt_state db1 D = Inr (Some (Some s1, 1)) \<and>
            update_crdt_state db1 D s2 (Some 0) t2 = Inr (None, db1) \<and>
            update_crdt_state db1 D s2 (Some 1) t3 = Inr (Some doc2, db2) \<and>
            document_row db2 D doc2 \<and> d_last_edited_at doc2 = Some t3 \<and>
            get_crdt_state db2 D = Inr (Some (Some s2, 2))))"
proof (intro conjI impI)
  assume "ev \<noteq> d_crdt_version doc"
  then show "update_crdt_state db D s (Some ev) now = Inr (None, db)"
    using assms by (rule update_crdt_state_conflict[rotated 2])
next
  assume range: "int32_min \<le> d_crdt_version doc \<and> d_crdt_version doc < int32_max"
  let ?doc' = "doc\<lparr>d_crdt_state := Some s, d_crdt_version := d_crdt_version doc + 1,
                   d_last_edited_at := Some now\<rparr>"
  obtain db' where
    w: "update_crdt_state db D s (Some (d_crdt_version doc)) now = Inr (Some ?doc', db')"
    and r: "document_row db' D ?doc'"
    using update_crdt_state_applies[OF assms, of "Some (d_crdt_version doc)" s now] range
    by auto
  have "get_crdt_state db' D = Inr (Some (Some s, d_crdt_version doc + 1))"
    using r assms(2) by (simp add: get_crdt_state_def get_document_by_id_row)
  then show "\<exists>db'. update_crdt_state db D s (Some (d_crdt_version doc)) now =
              Inr (Some ?doc', db')
            \<and> document_row db' D ?doc'
            \<and> get_crdt_state db' D = Inr (Some (Some s, d_crdt_version doc + 1))"
    using w r by blast
next
  assume "d_crdt_version doc = int32_max"
  then show "update_crdt_state db D s (Some (d_crdt_version doc)) now = Inl DBAPIError"
    using update_crdt_state_full[OF assms, of "Some (d_crdt_version doc)" s now] by simp
next
  assume v0: "d_crdt_version doc = 0"
  have range0: "int32_min \<le> d_crdt_version doc" "d_crdt_version doc < int32_max"
    using v0 by (simp_all add: int32_min_def int32_max_def)
  let ?doc1 = "doc\<lparr>d_crdt_state := Some s1, d_crdt_version := d_crdt_version doc + 1,
                   d_last_edited_at := Some t1\<rparr>"
  obtain db1 where w1: "update_crdt_state db D s1 (Some 0) t1 = Inr (Some ?doc1, db1)"
    and r1: "document_row db1 D ?doc1"
    using update_crdt_state_applies[OF assms _ range0, of "Some 0" s1 t1] v0 by auto
  have a1: "d_is_archived ?doc1 = False" and v1: "d_crdt_version ?doc1 = 1"
    using assms(2) v0 by simp_all
  have range1: "int32_min \<le> d_crdt_version ?doc1" "d_crdt_version ?doc1 < int32_max"
    using v0 by (simp_all add: int32_min_def int32_max_def)
  have g1: "get_crdt_state db1 D = Inr (Some (Some s1, 1))"
    using r1 a1 v0 by (simp add: get_crdt_state_def get_document_by_id_row)
  have c1: "update_crdt_state db1 D s2 (Some 0) t2 = Inr (None, db1)"
    using update_crdt_state_conflict[OF r1 a1, of 0 s2 t2] v1 by simp
  let ?doc2 = "?doc1\<lparr>d_crdt_state := Some s2, d_crdt_version := d_crdt_version ?doc1 + 1,
                     d_last_edited_at := Some t3\<rparr>"
  obtain db2 where w2: "update_crdt_state db1 D s2 (Some 1) t3 = Inr (Some ?doc2, db2)"
    and r2: "document_row db2 D ?doc2"
    using update_crdt_state_applies[OF r1 a1 _ range1, of "Some 1" s2 t3] v1 by auto
  have g2: "get_crdt_state db2 D = Inr (Some (Some s2, 2))"
    using r2 a1 v0 by (simp add: get_crdt_state_def get_document_by_id_row)
  have l1: "d_last_edited_at ?doc1 = Some t1" and l2: "d_last_edited_at ?doc2 = Some t3"
    by simp_all
  show "\<exists>doc1 db1 doc2 db2.
            update_crdt_state db D s1 (Some 0) t1 = Inr (Some doc1, db1) \<and>
            document_row db1 D doc1 \<and> d_last_edited_at doc1 = Some t1 \<and>
            get_crdt_state db1 D = Inr (Some (Some s1, 1)) \<and>
            update_crdt_state db1 D s2 (Some 0) t2 = Inr (None, db1) \<and>
            update_crdt_state db1 D s2 (Some 1) t3 = Inr (Some doc2, db2) \<and>
            document_row db2 D doc2 \<and> d_last_edited_at doc2 = Some t3 \<and>
            get_crdt_state db2 D = Inr (Some (Some s2, 2))"
    using w1 r1 l1 g1 c1 w2 r2 l2 g2 by blast
qed

text \<open>
  The private document of the small database, at version 0: a write expecting 3 is
  refused, a write expecting 0 is stored at version 1 with its stamp; and the document
  at version 2147483647 refuses the write that expects it.
\<close>

theorem update_crdt_state_version_gate_witness:
  "document_row db0 10 private_doc \<and> d_is_archived private_doc = False \<and>
   update_crdt_state db0 10 ''abc'' (Some 3) 5 = Inr (None, db0) \<and>
   (\<exists>db'. update_crdt_state db0 10 ''abc'' (Some 0) 5 =
       Inr (Some (private_doc\<lparr>d_crdt_state := Some ''abc'', d_crdt_version := 1,
                              d_last_edited_at := Some 5\<rparr>), db')
     \<and> document_row db' 10
          (private_doc\<lparr>d_crdt_state := Some ''abc'', d_crdt_version := 1,
                        d_last_edited_at := Some 5\<rparr>)
     \<and> get_crdt_state db' 10 = Inr (Some (Some ''abc'', 1))) \<and>
   document_row db_full 13 full_doc \<and> d_is_archived full_doc = False \<and>
   d_crdt_version full_doc = int32_max \<and>
   update_crdt_state db_full 13 ''xyz'' (Some 2147483647) 5 = Inl DBAPIError"
proof -
  have h1: "document_row db0 10 private_doc" by code_simp
  have h2: "d_is_archived private_doc = False" by code_simp
  have v: "d_crdt_version private_doc = 0" by code_simp
  have r: "int32_min \<le> (0::int)" "(0::int) < int32_max" by code_simp+
  have k1: "document_row db_full 13 full_doc" by code_simp
  have k2: "d_is_archived full_doc = False" by code_simp
  have k3: "d_crdt_version full_doc = int32_max" by code_simp
  have k4: "d_crdt_version full_doc = 2147483647" by code_simp
  show ?thesis
    using h1 h2 v r k1 k2 k3 k4
      update_crdt_state_version_gate[OF h1 h2, where ev = 3 and s = "''abc''" and now = 5]
      update_crdt_state_version_gate[OF k1 k2, where s = "''xyz''" and now = 5]
    by simp
qed

text \<open>
  The archived document 12 of the small database is stored at version 0; the write
  \<^verbatim>\<open>update_crdt_state(12, b"abc", expected_version=0)\<close> returns None and stores nothing.
  Document 13 is stored at version 2147483647 and is not archived; the write
  \<^verbatim>\<open>update_crdt_state(13, b"xyz", expected_version=2147483647)\<close> raises and stores
  nothing.
\<close>

theorem update_crdt_state_version_gate_counterexample:
  "get_document_by_id db0 12 True = Inr (Some archived_doc) \<and>
   d_crdt_version archived_doc = 0 \<and>
   update_crdt_state db0 12 ''abc'' (Some 0) 5 = Inr (None, db0) \<and>
   get_document_by_id db_full 13 False = Inr (Some full_doc) \<and>
   d_crdt_version full_doc = 2147483647 \<and>
   update_crdt_state db_full 13 ''xyz'' (Some 2147483647) 5 = Inl DBAPIError"
  by code_simp

section \<open>Access control\<close>

text \<open>
  C7. When the role user \<open>U\<close> holds on document \<open>D\<close> is OWNER,
  \<^verbatim>\<open>revoke_permission\<close> returns False and the database, the permission table with
  it, is the one before the call.
\<close>

theorem revoke_permission_owner:
  "get_user_role db D U = Inr (Some OWNER) \<Longrightarrow> revoke_permission db D U = Inr (False, db)"
  by (auto simp: get_user_role_def revoke_permission_def split: sum.splits option.splits)

theorem revoke_permission_owner_witness:
  "get_user_role db0 10 1 = Inr (Some OWNER) \<and> revoke_permission db0 10 1 = Inr (False, db0)"
proof -
  have h: "get_user_role db0 10 1 = Inr (Some OWNER)" by code_simp
  show ?thesis using h revoke_permission_owner[OF h] by simp
qed

text \<open>
  C8, as the code has it. For a public document \<open>D\<close> that is not archived and a user
  \<open>U\<close> with no permission row on it, \<^verbatim>\<open>check_access\<close> is True for VIEWER and False
  for EDITOR. The claim says this of every public document; for an archived one the
  VIEWER check is False (C9).
\<close>

theorem check_access_public:
  assumes "document_row db D doc" and "d_is_archived doc = False" and "d_is_public doc"
    and "permission_rows db D U = []"
  shows "check_access db D U VIEWER = Inr True \<and> check_access db D U EDITOR = Inr False"
  using assms by (simp add: check_access_def get_user_role_none get_document_by_id_row)

theorem check_access_public_witness:
  "document_row db0 11 public_doc \<and> d_is_archived public_doc = False \<and>
   d_is_public public_doc \<and> permission_rows db0 11 2 = [] \<and>
   check_access db0 11 2 VIEWER = Inr True \<and> check_access db0 11 2 EDITOR = Inr False"
proof -
  have h1: "document_row db0 11 public_doc" by code_simp
  have h2: "d_is_archived public_doc = False" by code_simp
  have h3: "d_is_public public_doc" by code_simp
  have h4: "permission_rows db0 11 2 = []" by code_simp
  show ?thesis using h1 h2 h3 h4 check_access_public[OF h1 h2 h3 h4] by simp
qed

text \<open>
  Document 12 of the small database is public and archived, and Bob (user 2) has no
  permission row on it: the VIEWER check is False.
\<close>

theorem check_access_public_counterexample:
  "document_row db0 12 archived_doc \<and> d_is_public archived_doc \<and>
   permission_rows db0 12 2 = [] \<and> check_access db0 12 2 VIEWER = Inr False"
  by code_simp

text \<open>
  C9. For a public document \<open>D\<close> and a user \<open>U\<close> with no permission row on it: when
  \<open>D\<close> is archived, the lookup of the public fallback (\<^verbatim>\<open>get_document_by_id\<close>, which
  leaves archived documents out) finds nothing and the VIEWER check is False; and
  after \<^verbatim>\<open>delete_document\<close> has archived \<open>D\<close>, the VIEWER check is False.
\<close>

theorem check_access_archived_public:
  assumes "document_row db D doc" and "d_is_public doc" and "permission_rows db D U = []"
  shows "(d_is_archived doc \<longrightarrow>
            get_document_by_id db D False = Inr None \<and> check_access db D U VIEWER = Inr False)
       \<and> (\<exists>db'. delete_document db doc True = Inr (True, db') \<and>
                  check_access db' D U VIEWER = Inr False)"
proof (intro conjI impI)
  assume "d_is_archived doc"
  then show "get_document_by_id db D False = Inr None"
    and "check_access db D U VIEWER = Inr False"
    using assms by (simp_all add: check_access_def get_user_role_none get_document_by_id_row)
next
  let ?db = "db\<lparr>documents :=
                  map (\<lambda>d. if d_id d = d_id doc then d\<lparr>d_is_archived := True\<rparr> else d)
                    (documents db)\<rparr>"
  have id: "d_id doc = D" using assms(1) by (rule document_row_id)
  have row: "document_row ?db D (doc\<lparr>d_is_archived := True\<rparr>)"
    using assms(1) id by (simp add: document_row_def filter_map_same_id)
  have perms: "permission_rows ?db D U = []"
    using assms(3) by (simp add: permission_rows_def)
  have "check_access ?db D U VIEWER = Inr False"
    using row perms by (simp add: check_access_def get_user_role_none get_document_by_id_row)
  then show "\<exists>db'. delete_document db doc True = Inr (True, db') \<and>
                  check_access db' D U VIEWER = Inr False"
    by (simp add: delete_document_def)
qed

text \<open>
  Carol (user 3) has no permission on the archived public document 12 and is refused;
  she can view the public document 11, and is refused once it is archived.
\<close>

theorem check_access_archived_public_witness:
  "document_row db0 12 archived_doc \<and> d_is_archived archived_doc \<and>
   d_is_public archived_doc \<and> permission_rows db0 12 3 = [] \<and>
   check_access db0 12 3 VIEWER = Inr False \<and>
   document_row db0 11 public_doc \<and> d_is_public public_doc \<and>
   permission_rows db0 11 3 = [] \<and> check_access db0 11 3 VIEWER = Inr True \<and>
   (\<exists>db'. delete_document db0 public_doc True = Inr (True, db') \<and>
           check_access db' 11 3 VIEWER = Inr False)"
proof -
  have h1: "document_row db0 12 archived_doc" by code_simp
  have h2: "d_is_public archived_doc" by code_simp
  have h3: "permission_rows db0 12 3 = []" by code_simp
  have h4: "d_is_archived archived_doc" by code_simp
  have k1: "document_row db0 11 public_doc" by code_simp
  have k2: "d_is_public public_doc" by code_simp
  have k3: "permission_rows db0 11 3 = []" by code_simp
  have k4: "check_access db0 11 3 VIEWER = Inr True" by code_simp
  show ?thesis
    using h1 h2 h3 h4 k1 k2 k3 k4
      check_access_archived_public[OF h1 h2 h3] check_access_archived_public[OF k1 k2 k3]
    by simp
qed

section \<open>Invitations\<close>

lemma lower_status_value:
  "lower (status_value s) =
     (case s of PENDING \<Rightarrow> ''pending'' | ACCEPTED \<Rightarrow> ''accepted''
      | DECLINED \<Rightarrow> ''declined'' | EXPIRED \<Rightarrow> ''expired'')"
proof -
  have "lower (status_value PENDING) = ''pending''" by code_simp
  moreover have "lower (status_value ACCEPTED) = ''accepted''" by code_simp
  moreover have "lower (status_value DECLINED) = ''declined''" by code_simp
  moreover have "lower (status_value EXPIRED) = ''expired''" by code_simp
  ultimately show ?thesis by (cases s) simp_all
qed

lemma filter_map_key:
  assumes "\<And>x. k (f x) = k x"
  shows "filter (\<lambda>x. k x = K) (map (\<lambda>x. if k x = K then f x else x) xs)
         = map f (filter (\<lambda>x. k x = K) xs)"
  using assms by (induction xs) auto

lemma invitation_row_id: "invitation_row db X invitation \<Longrightarrow> i_id invitation = X"
proof -
  assume "invitation_row db X invitation"
  then have "invitation \<in> set (filter (\<lambda>i. i_id i = X) (invitations db))"
    by (simp add: invitation_row_def)
  then show ?thesis by simp
qed

lemma get_invitation_by_id_row:
  "invitation_row db X invitation \<Longrightarrow> get_invitation_by_id db X = Inr (Some invitation)"
  by (simp add: get_invitation_by_id_def invitation_row_def)

lemma get_invitation_by_id_Some:
  "get_invitation_by_id db X = Inr (Some invitation) \<Longrightarrow> invitation_row db X invitation"
  unfolding get_invitation_by_id_def invitation_row_def
  by (cases "filter (\<lambda>i. i_id i = X) (invitations db)" rule: scalar_one_or_none.cases) auto

lemma accept_invitation_fresh:
  assumes "invitation_row db X invitation"
    and "permission_rows db (i_document_id invitation) U = []"
    and "\<not> list_ex (\<lambda>p. p_id p = new_id) (permissions db)"
  shows "\<exists>db'. accept_invitation db invitation U now new_id =
            Inr (\<lparr>p_id = new_id, p_document_id = i_document_id invitation, p_user_id = U,
                  p_role = i_role invitation, p_granted_at = now,
                  p_granted_by_id = Some (i_invited_by_id invitation)\<rparr>, db')
          \<and> invitation_row db' X
               (invitation\<lparr>i_status := ACCEPTED, i_responded_at := Some now,
                            i_invitee_id := Some U\<rparr>)
          \<and> permission_rows db' (i_document_id invitation) U =
               [\<lparr>p_id = new_id, p_document_id = i_document_id invitation, p_user_id = U,
                 p_role = i_role invitation, p_granted_at = now,
                 p_granted_by_id = Some (i_invited_by_id invitation)\<rparr>]
          \<and> permissions db' = permissions db @
               [\<lparr>p_id = new_id, p_document_id = i_document_id invitation, p_user_id = U,
                 p_role = i_role invitation, p_granted_at = now,
                 p_granted_by_id = Some (i_invited_by_id invitation)\<rparr>]"
proof -
  have id: "i_id invitation = X" using assms(1) by (rule invitation_row_id)
  have noclash: "\<not> list_ex (permission_clash \<lparr>p_id = new_id, p_document_id = i_document_id invitation, p_user_id = U,
                  p_role = i_role invitation, p_granted_at = now,
                  p_granted_by_id = Some (i_invited_by_id invitation)\<rparr>) (permissions db)"
    using assms(2,3)
    by (auto simp: list_ex_iff permission_clash_def permission_rows_def filter_empty_conv)
  show ?thesis
    using assms(1,2) id noclash
    by (simp add: accept_invitation_def add_permission_def Let_def invitation_row_def
        permission_rows_def filter_map_key[where k = i_id])
qed

lemma decline_invitation_row:
  assumes "invitation_row db X invitation"
  shows "\<exists>db'. decline_invitation db invitation now =
            Inr (invitation\<lparr>i_status := DECLINED, i_responded_at := Some now\<rparr>, db')
          \<and> invitation_row db' X (invitation\<lparr>i_status := DECLINED, i_responded_at := Some now\<rparr>)
          \<and> permissions db' = permissions db"
  using assms invitation_row_id[OF assms]
  by (simp add: decline_invitation_def invitation_row_def filter_map_key[where k = i_id])

lemma lower_literals:
  "lower ''PENDING'' = ''pending''" "lower ''ACCEPTED'' = ''accepted''"
  "lower ''DECLINED'' = ''declined''" "lower ''EXPIRED'' = ''expired''"
  by code_simp+

lemma accept_invitation_Inr:
  assumes "accept_invitation db invitation U now new_id = Inr (p, db')"
  shows "invitations db' =
           map (\<lambda>i. if i_id i = i_id invitation
                     then i\<lparr>i_status := ACCEPTED, i_responded_at := Some now,
                            i_invitee_id := Some U\<rparr>
                     else i) (invitations db)
         \<and> permissions db' = permissions db @ [p]
         \<and> p_role p = i_role invitation \<and> p_user_id p = U
         \<and> p_document_id p = i_document_id invitation
         \<and> permission_rows db (i_document_id invitation) U = []"
  using assms
  by (auto simp: accept_invitation_def add_permission_def Let_def permission_rows_def
      list_ex_iff permission_clash_def filter_empty_conv split: if_splits)

lemma accept_invitation_existing:
  assumes "permission_rows db (i_document_id invitation) U \<noteq> []"
  shows "accept_invitation db invitation U now new_id = Inl IntegrityError"
proof -
  obtain q where "q \<in> set (permissions db)" "p_document_id q = i_document_id invitation"
    "p_user_id q = U"
    using assms by (auto simp: permission_rows_def filter_empty_conv)
  then show ?thesis
    by (auto simp: accept_invitation_def add_permission_def Let_def list_ex_iff
        permission_clash_def)
qed

text \<open>
  What \<^verbatim>\<open>respond_to_invitation\<close> does on a PENDING invitation for its invitee, at
  any time \<open>now\<close>: a decline is stored; an accept is stored with a new permission
  row when the invitee has none on the document and the new primary key is unused; an
  accept raises IntegrityError when the invitee already has a permission row there.
  The invitation's expiry is not read.
\<close>

lemma respond_to_invitation_pending:
  assumes "invitation_row db X invitation" and "i_status invitation = PENDING"
    and "is_invitee invitation u"
  shows "\<exists>db'. respond_to_invitation db X False u now new_id = Inr (Invitation_declined, db')
           \<and> invitation_row db' X
                (invitation\<lparr>i_status := DECLINED, i_responded_at := Some now\<rparr>)
           \<and> permissions db' = permissions db"
    and "permission_rows db (i_document_id invitation) (u_id u) = [] \<Longrightarrow>
         \<not> list_ex (\<lambda>p. p_id p = new_id) (permissions db) \<Longrightarrow>
         \<exists>db'. respond_to_invitation db X True u now new_id =
                  Inr (Invitation_accepted (i_role invitation) (i_document_id invitation), db')
           \<and> invitation_row db' X
                (invitation\<lparr>i_status := ACCEPTED, i_responded_at := Some now,
                             i_invitee_id := Some (u_id u)\<rparr>)
           \<and> permission_rows db' (i_document_id invitation) (u_id u) =
                [\<lparr>p_id = new_id, p_document_id = i_document_id invitation,
                  p_user_id = u_id u, p_role = i_role invitation, p_granted_at = now,
                  p_granted_by_id = Some (i_invited_by_id invitation)\<rparr>]"
    and "permission_rows db (i_document_id invitation) (u_id u) \<noteq> [] \<Longrightarrow>
         respond_to_invitation db X True u now new_id = Inl IntegrityError"
proof -
  show "\<exists>db'. respond_to_invitation db X False u now new_id = Inr (Invitation_declined, db')
           \<and> invitation_row db' X
                (invitation\<lparr>i_status := DECLINED, i_responded_at := Some now\<rparr>)
           \<and> permissions db' = permissions db"
    using assms decline_invitation_row[OF assms(1), of now]
    by (auto simp: respond_to_invitation_def get_invitation_by_id_row is_invitee_def)
next
  assume a: "permission_rows db (i_document_id invitation) (u_id u) = []"
    and b: "\<not> list_ex (\<lambda>p. p_id p = new_id) (permissions db)"
  show "\<exists>db'. respond_to_invitation db X True u now new_id =
                  Inr (Invitation_accepted (i_role invitation) (i_document_id invitation), db')
           \<and> invitation_row db' X
                (invitation\<lparr>i_status := ACCEPTED, i_responded_at := Some now,
                             i_invitee_id := Some (u_id u)\<rparr>)
           \<and> permission_rows db' (i_document_id invitation) (u_id u) =
                [\<lparr>p_id = new_id, p_document_id = i_document_id invitation,
                  p_user_id = u_id u, p_role = i_role invitation, p_granted_at = now,
                  p_granted_by_id = Some (i_invited_by_id invitation)\<rparr>]"
    using assms accept_invitation_fresh[OF assms(1) a b, of now]
    by (auto simp: respond_to_invitation_def get_invitation_by_id_row is_invitee_def)
next
  assume "permission_rows db (i_document_id invitation) (u_id u) \<noteq> []"
  then show "respond_to_invitation db X True u now new_id = Inl IntegrityError"
    using assms
    by (simp add: respond_to_invitation_def get_invitation_by_id_row is_invitee_def
        accept_invitation_existing)
qed

lemma stale_invitation_not_listed:
  "i_expires_at invitation \<le> now \<Longrightarrow>
   invitation \<notin> set (get_pending_invitations_for_user db user_id user_email now)"
  by (simp add: get_pending_invitations_for_user_def)

lemma respond_to_invitation_Inr:
  assumes "respond_to_invitation db X accept u now new_id = Inr (r, db')"
  shows "\<exists>invitation. invitation_row db X invitation \<and> i_status invitation = PENDING \<and>
           is_invitee invitation u \<and>
           invitation_row db' X
             (if accept
              then invitation\<lparr>i_status := ACCEPTED, i_responded_at := Some now,
                               i_invitee_id := Some (u_id u)\<rparr>
              else invitation\<lparr>i_status := DECLINED, i_responded_at := Some now\<rparr>)"
proof -
  from assms obtain invitation where g: "get_invitation_by_id db X = Inr (Some invitation)"
    by (auto simp: respond_to_invitation_def split: sum.splits option.splits)
  then have row: "invitation_row db X invitation" by (rule get_invitation_by_id_Some)
  have id: "i_id invitation = X" using row by (rule invitation_row_id)
  from assms g have inv: "is_invitee invitation u" and st: "i_status invitation = PENDING"
    by (auto simp: respond_to_invitation_def is_invitee_def split: if_splits)
  have "invitation_row db' X
             (if accept
              then invitation\<lparr>i_status := ACCEPTED, i_responded_at := Some now,
                               i_invitee_id := Some (u_id u)\<rparr>
              else invitation\<lparr>i_status := DECLINED, i_responded_at := Some now\<rparr>)"
  proof (cases accept)
    case True
    with assms g inv st obtain p where
      "accept_invitation db invitation (u_id u) now new_id = Inr (p, db')"
      by (auto simp: respond_to_invitation_def is_invitee_def split: sum.splits)
    from accept_invitation_Inr[OF this] row id True show ?thesis
      by (simp add: invitation_row_def filter_map_key[where k = i_id])
  next
    case False
    with assms g inv st have
      "db' = db\<lparr>invitations :=
               map (\<lambda>i. if i_id i = i_id invitation
                         then i\<lparr>i_status := DECLINED, i_responded_at := Some now\<rparr>
                         else i) (invitations db)\<rparr>"
      by (auto simp: respond_to_invitation_def is_invitee_def decline_invitation_def
          split: sum.splits)
    with row id False show ?thesis
      by (simp add: invitation_row_def filter_map_key[where k = i_id])
  qed
  with row st inv show ?thesis by blast
qed

text \<open>
  C2. The claim: a request to invite with role OWNER is refused, by the validation
  that makes the grant route refuse OWNER. The grant route does refuse it (status 400);
  the invitation route has no such check. Bob's EDITOR invitation to document 10 is
  pending; Dave, an editor of the document, invites Bob again as OWNER, and the pending
  row is rewritten to role OWNER; when Bob then accepts, he holds OWNER. (An invitation
  for an email with no pending row is refused whatever its role, OWNER or VIEWER, by
  the insert, which lacks the token hash, and not by a check of the role.)
\<close>

theorem create_invitation_route_owner_role:
  "get_user_role db_invited 10 4 = Inr (Some EDITOR) \<and>
   get_invitation_by_id db_invited 30 = Inr (Some bob_invitation) \<and>
   i_status bob_invitation = PENDING \<and> i_role bob_invitation = EDITOR \<and>
   create_invitation_route db_invited
     \<lparr>ic_document_id = 10, ic_invitee_email = ''bob@example.com'', ic_role = OWNER,
      ic_message = None\<rparr> dave 100 31
   = Inr (bob_invitation\<lparr>i_role := OWNER, i_invited_by_id := 4\<rparr>,
          db0\<lparr>invitations := [bob_invitation\<lparr>i_role := OWNER, i_invited_by_id := 4\<rparr>]\<rparr>) \<and>
   get_user_role
     (run_requests db_invited
        [Create_invitation \<lparr>ic_document_id = 10, ic_invitee_email = ''bob@example.com'',
                            ic_role = OWNER, ic_message = None\<rparr> dave 100 31,
         Respond_to_invitation 30 True bob 200 41]) 10 2 = Inr (Some OWNER) \<and>
   grant_permission_route db_invited 10 \<lparr>pc_user_id = 2, pc_role = OWNER\<rparr> alice 100 41
   = Inl (HTTPException 400 ''Cannot grant OWNER role. Use transfer ownership instead.'') \<and>
   create_invitation_route db_invited
     \<lparr>ic_document_id = 10, ic_invitee_email = ''carol@example.com'', ic_role = OWNER,
      ic_message = None\<rparr> dave 100 31 = Inl IntegrityError \<and>
   create_invitation_route db_invited
     \<lparr>ic_document_id = 10, ic_invitee_email = ''carol@example.com'', ic_role = VIEWER,
      ic_message = None\<rparr> dave 100 31 = Inl IntegrityError"
  by code_simp

text \<open>
  C3. The claim: accepting a PENDING invitation stores ACCEPTED, the response time
  and the invitee id, and creates the permission at the invitation's role or, when the
  pair already has a permission, updates its role. \<^verbatim>\<open>accept_invitation\<close> always adds a
  new permission row. Bob's EDITOR invitation is pending and Alice grants him VIEWER
  directly; Bob's accept then raises IntegrityError (the unique constraint on document
  and user), so the invitation stays PENDING and his role stays VIEWER.
  \<^verbatim>\<open>grant_permission\<close>, on the same state, updates the row to EDITOR.
\<close>

theorem accept_invitation_existing_permission:
  "run_requests db_invited
     [Grant_permission 10 \<lparr>pc_user_id = 2, pc_role = VIEWER\<rparr> alice 150 40] = db_granted \<and>
   get_invitation_by_id db_granted 30 = Inr (Some bob_invitation) \<and>
   i_status bob_invitation = PENDING \<and> i_role bob_invitation = EDITOR \<and>
   is_invitee bob_invitation bob \<and>
   get_user_role db_granted 10 2 = Inr (Some VIEWER) \<and>
   accept_invitation db_granted bob_invitation 2 200 41 = Inl IntegrityError \<and>
   respond_to_invitation db_granted 30 True bob 200 41 = Inl IntegrityError \<and>
   handle db_granted (Respond_to_invitation 30 True bob 200 41) = db_granted \<and>
   grant_permission db_granted 10 2 EDITOR 1 200 41 =
     Inr (bob_viewer_permission\<lparr>p_role := EDITOR, p_granted_at := 200\<rparr>,
          db_granted\<lparr>permissions :=
            permissions db0 @ [bob_viewer_permission\<lparr>p_role := EDITOR, p_granted_at := 200\<rparr>]\<rparr>)"
  by code_simp

text \<open>
  C4, as the code has it. Let the invitation with id \<open>X\<close> not be PENDING. A respond by
  its invitee fails with status 400 and the detail "Invitation has already been
  accepted / declined / expired", naming the current status; a respond by anyone else
  fails with status 403 "This invitation is not for you". Either way nothing is stored.
  And after a respond that succeeded, every further respond on the same invitation
  fails and stores nothing; by the same user it fails with the status-naming error.
  The claim says that any respond call gets the status-naming conflict; the route tests
  the caller's identity before the status.
\<close>

theorem respond_single_resolution:
  "(invitation_row db X invitation \<and> i_status invitation \<noteq> PENDING \<longrightarrow>
      respond_to_invitation db X accept u now new_id =
        Inl (if is_invitee invitation u
             then HTTPException 400
                    (''Invitation has already been '' @
                     (case i_status invitation of
                        ACCEPTED \<Rightarrow> ''accepted'' | DECLINED \<Rightarrow> ''declined''
                      | EXPIRED \<Rightarrow> ''expired'' | PENDING \<Rightarrow> ''pending''))
             else HTTPException 403 ''This invitation is not for you'')
      \<and> handle db (Respond_to_invitation X accept u now new_id) = db)
   \<and> (respond_to_invitation db X accept u now new_id = Inr (r, db') \<longrightarrow>
        respond_to_invitation db' X accept2 u now2 new_id2 =
          Inl (HTTPException 400
                 (''Invitation has already been '' @
                  (if accept then ''accepted'' else ''declined'')))
        \<and> (\<exists>e. respond_to_invitation db' X accept2 u2 now2 new_id2 = Inl e)
        \<and> handle db' (Respond_to_invitation X accept2 u2 now2 new_id2) = db')"
proof (intro conjI impI)
  assume a: "invitation_row db X invitation \<and> i_status invitation \<noteq> PENDING"
  then have row: "invitation_row db X invitation" and st: "i_status invitation \<noteq> PENDING"
    by simp_all
  have g: "get_invitation_by_id db X = Inr (Some invitation)"
    using row by (rule get_invitation_by_id_row)
  show "respond_to_invitation db X accept u now new_id =
        Inl (if is_invitee invitation u
             then HTTPException 400
                    (''Invitation has already been '' @
                     (case i_status invitation of
                        ACCEPTED \<Rightarrow> ''accepted'' | DECLINED \<Rightarrow> ''declined''
                      | EXPIRED \<Rightarrow> ''expired'' | PENDING \<Rightarrow> ''pending''))
             else HTTPException 403 ''This invitation is not for you'')"
    using st
    by (simp add: respond_to_invitation_def g is_invitee_def
        lower_status_value split: InvitationStatus.splits)
  then show "handle db (Respond_to_invitation X accept u now new_id) = db"
    by (simp add: committed_def)
next
  assume s: "respond_to_invitation db X accept u now new_id = Inr (r, db')"
  from respond_to_invitation_Inr[OF s] obtain invitation where
    inv: "is_invitee invitation u"
    and row: "invitation_row db' X
             (if accept
              then invitation\<lparr>i_status := ACCEPTED, i_responded_at := Some now,
                               i_invitee_id := Some (u_id u)\<rparr>
              else invitation\<lparr>i_status := DECLINED, i_responded_at := Some now\<rparr>)"
    by blast
  show "respond_to_invitation db' X accept2 u now2 new_id2 =
          Inl (HTTPException 400
                 (''Invitation has already been '' @
                  (if accept then ''accepted'' else ''declined'')))"
    using inv row
    by (cases accept)
      (simp_all add: respond_to_invitation_def get_invitation_by_id_row is_invitee_def
        lower_literals)
  show e: "\<exists>e. respond_to_invitation db' X accept2 u2 now2 new_id2 = Inl e"
    using row
    by (cases accept)
      (simp_all add: respond_to_invitation_def get_invitation_by_id_row)
  then show "handle db' (Respond_to_invitation X accept2 u2 now2 new_id2) = db'"
    by (auto simp: committed_def)
qed

text \<open>
  Bob's invitation, accepted: his second accept and a later decline are refused with
  "Invitation has already been accepted", and nothing is stored.
\<close>

theorem respond_single_resolution_witness:
  "invitation_row db_accepted 30 bob_invitation_accepted \<and>
   i_status bob_invitation_accepted \<noteq> PENDING \<and>
   is_invitee bob_invitation_accepted bob \<and>
   respond_to_invitation db_accepted 30 True bob 300 42 =
     Inl (HTTPException 400 ''Invitation has already been accepted'') \<and>
   handle db_accepted (Respond_to_invitation 30 True bob 300 42) = db_accepted \<and>
   respond_to_invitation db_invited 30 True bob 200 41 =
     Inr (Invitation_accepted EDITOR 10, db_accepted) \<and>
   respond_to_invitation db_accepted 30 False bob 300 42 =
     Inl (HTTPException 400 ''Invitation has already been accepted'')"
proof -
  have h1: "invitation_row db_accepted 30 bob_invitation_accepted" by code_simp
  have h2: "i_status bob_invitation_accepted \<noteq> PENDING" by code_simp
  have h3: "is_invitee bob_invitation_accepted bob" by code_simp
  have h4: "i_status bob_invitation_accepted = ACCEPTED" by code_simp
  have h5: "respond_to_invitation db_invited 30 True bob 200 41 =
     Inr (Invitation_accepted EDITOR 10, db_accepted)" by code_simp
  show ?thesis
    using h1 h2 h3 h4 h5
      respond_single_resolution[of db_accepted 30 bob_invitation_accepted True bob 300 42]
      respond_single_resolution[of db_invited 30 _ True bob 200 41
         "Invitation_accepted EDITOR 10" db_accepted False 300 42]
    by (simp add: committed_def)
qed

text \<open>
  Carol is not the invitee of Bob's accepted invitation: her respond is refused with
  status 403, which does not name the status.
\<close>

theorem respond_single_resolution_counterexample:
  "get_invitation_by_id db_accepted 30 = Inr (Some bob_invitation_accepted) \<and>
   i_status bob_invitation_accepted = ACCEPTED \<and>
   respond_to_invitation db_accepted 30 True carol 300 42 =
     Inl (HTTPException 403 ''This invitation is not for you'')"
  by code_simp

text \<open>
  C10. The claim: a PENDING invitation whose expiry has passed can still be answered
  by its invitee; accept stores ACCEPTED and grants the permission, decline stores
  DECLINED. The respond path indeed never reads the expiry
  (\<open>respond_to_invitation_pending\<close>), but the accept still fails where C3 fails: Bob's
  invitation expired before time 700000000000 and is hidden from his listing, he
  already holds VIEWER, and his accept raises IntegrityError.
\<close>

theorem respond_expired_existing_permission:
  "get_invitation_by_id db_granted 30 = Inr (Some bob_invitation) \<and>
   i_status bob_invitation = PENDING \<and>
   i_expires_at bob_invitation < 700000000000 \<and>
   is_invitee bob_invitation bob \<and>
   get_pending_invitations_for_user db_granted 2 ''bob@example.com'' 700000000000 = [] \<and>
   respond_to_invitation db_granted 30 True bob 700000000000 41 = Inl IntegrityError"
  by code_simp

text \<open>
  Without the direct grant, the same expired invitation is accepted or declined at
  that time; the sweep would set it to EXPIRED.
\<close>

lemma respond_expired_examples:
  "i_expires_at bob_invitation < 700000000000 \<and>
   respond_to_invitation db_invited 30 True bob 700000000000 41 =
     Inr (Invitation_accepted EDITOR 10,
          db0\<lparr>permissions := permissions db0 @ [bob_editor_permission\<lparr>p_granted_at := 700000000000\<rparr>],
              invitations := [bob_invitation\<lparr>i_status := ACCEPTED,
                 i_responded_at := Some 700000000000\<rparr>]\<rparr>) \<and>
   respond_to_invitation db_invited 30 False bob 700000000000 41 =
     Inr (Invitation_declined,
          db0\<lparr>invitations := [bob_invitation\<lparr>i_status := DECLINED,
                 i_responded_at := Some 700000000000\<rparr>]\<rparr>) \<and>
   expire_old_invitations db_invited 700000000000 =
     Inr (1, db0\<lparr>invitations := [bob_invitation\<lparr>i_status := EXPIRED\<rparr>]\<rparr>)"
  by code_simp

section \<open>At most one pending invitation per document and email\<close>

lemma distinct_map_filter_iff:
  "distinct (map k (filter P xs)) \<longleftrightarrow> (\<forall>a. length (filter (\<lambda>x. k x = a \<and> P x) xs) \<le> 1)"
proof (induction xs)
  case Nil
  then show ?case by simp
next
  case (Cons x xs)
  show ?case
  proof (cases "P x")
    case False
    then show ?thesis using Cons by simp
  next
    case True
    have mem: "k x \<in> k ` {y \<in> set xs. P y} \<longleftrightarrow> filter (\<lambda>y. k y = k x \<and> P y) xs \<noteq> []"
      by (force simp: filter_empty_conv image_iff)
    show ?thesis
    proof
      assume d: "distinct (map k (filter P (x # xs)))"
      then have e: "filter (\<lambda>y. k y = k x \<and> P y) xs = []" and d': "distinct (map k (filter P xs))"
        using True mem by auto
      show "\<forall>a. length (filter (\<lambda>y. k y = a \<and> P y) (x # xs)) \<le> 1"
        using e d' Cons.IH True by auto
    next
      assume a: "\<forall>a. length (filter (\<lambda>y. k y = a \<and> P y) (x # xs)) \<le> 1"
      then have "length (filter (\<lambda>y. k y = k x \<and> P y) (x # xs)) \<le> 1" by blast
      then have e: "filter (\<lambda>y. k y = k x \<and> P y) xs = []" using True by simp
      have "\<forall>a. length (filter (\<lambda>y. k y = a \<and> P y) xs) \<le> 1"
      proof
        fix b
        have "length (filter (\<lambda>y. k y = b \<and> P y) xs) \<le> length (filter (\<lambda>y. k y = b \<and> P y) (x # xs))"
          by simp
        also have "\<dots> \<le> 1" using a by blast
        finally show "length (filter (\<lambda>y. k y = b \<and> P y) xs) \<le> 1" .
      qed
      then have "distinct (map k (filter P xs))" using Cons.IH by simp
      then show "distinct (map k (filter P (x # xs)))" using True e mem by auto
    qed
  qed
qed

lemma pending_unique_iff:
  "pending_unique db \<longleftrightarrow> (\<forall>D E. length (pending_rows db D E) \<le> 1)"
proof -
  have "pending_unique db \<longleftrightarrow>
        (\<forall>a. length (filter (\<lambda>i. (i_document_id i, i_invitee_email i) = a \<and> i_status i = PENDING)
                 (invitations db)) \<le> 1)"
    unfolding pending_unique_def by (rule distinct_map_filter_iff)
  also have "\<dots> \<longleftrightarrow> (\<forall>D E. length (pending_rows db D E) \<le> 1)"
    by (simp add: pending_rows_def conj_assoc)
  finally show ?thesis .
qed

lemma length_filter_map_le:
  assumes "\<And>x. P (f x) \<Longrightarrow> P x"
  shows "length (filter P (map f xs)) \<le> length (filter P xs)"
  using assms by (induction xs) auto

lemma length_filter_filter_le: "length (filter P (filter Q xs)) \<le> length (filter P xs)"
  by (induction xs) auto

text \<open>An operation that only rewrites rows without making any row PENDING, or only deletes rows.\<close>

lemma pending_unique_map:
  assumes "pending_unique db" and "invitations db' = map f (invitations db)"
    and "\<And>i. i_document_id (f i) = i_document_id i"
    and "\<And>i. i_invitee_email (f i) = i_invitee_email i"
    and "\<And>i. i_status (f i) = PENDING \<Longrightarrow> i_status i = PENDING"
  shows "pending_unique db'"
proof -
  have "length (pending_rows db' D E) \<le> 1" for D E
  proof -
    have "length (pending_rows db' D E) \<le> length (pending_rows db D E)"
      unfolding pending_rows_def assms(2)
      by (rule length_filter_map_le) (simp add: assms(3,4,5))
    also have "\<dots> \<le> 1" using assms(1) by (simp add: pending_unique_iff)
    finally show ?thesis .
  qed
  then show ?thesis by (simp add: pending_unique_iff)
qed

lemma pending_unique_filter:
  assumes "pending_unique db" and "invitations db' = filter Q (invitations db)"
  shows "pending_unique db'"
proof -
  have "length (pending_rows db' D E) \<le> 1" for D E
  proof -
    have "length (pending_rows db' D E) \<le> length (pending_rows db D E)"
      unfolding pending_rows_def assms(2) by (rule length_filter_filter_le)
    also have "\<dots> \<le> 1" using assms(1) by (simp add: pending_unique_iff)
    finally show ?thesis .
  qed
  then show ?thesis by (simp add: pending_unique_iff)
qed

lemma pending_unique_same:
  "pending_unique db \<Longrightarrow> invitations db' = invitations db \<Longrightarrow> pending_unique db'"
  by (simp add: pending_unique_def)

lemma scalar_one_or_none_None: "scalar_one_or_none xs = Inr None \<Longrightarrow> xs = []"
  by (cases xs rule: scalar_one_or_none.cases) auto

lemma scalar_one_or_none_Some: "scalar_one_or_none xs = Inr (Some x) \<Longrightarrow> xs = [x]"
  by (cases xs rule: scalar_one_or_none.cases) auto

lemma scalar_one_or_none_short:
  "length xs \<le> 1 \<Longrightarrow> \<exists>r. scalar_one_or_none xs = Inr r"
  by (cases xs rule: scalar_one_or_none.cases) auto

lemma filter_map_commute:
  assumes "\<And>x. P (f x) = P x"
  shows "filter P (map f xs) = map f (filter P xs)"
  using assms by (induction xs) auto

text \<open>
  A call of \<^verbatim>\<open>create_invitation\<close> that returns has found the pending row of the pair
  and rewritten it: the insert branch never returns, because the row it builds has no
  token hash.
\<close>

lemma create_invitation_cases:
  assumes "create_invitation db D u E r m x now nid = Inr (i, db')"
  shows "\<exists>existing e. pending_rows db D E = [existing] \<and>
           datetime_add_days now
             (case x of None \<Rightarrow> INVITATION_EXPIRE_DAYS
              | Some n \<Rightarrow> if n = 0 then INVITATION_EXPIRE_DAYS else n) = Inr e \<and>
           i = existing\<lparr>i_role := r, i_message := m, i_expires_at := e,
                         i_invited_by_id := u\<rparr> \<and>
           invitations db' =
             map (\<lambda>j. if i_id j = i_id existing
                       then j\<lparr>i_role := r, i_message := m, i_expires_at := e,
                              i_invited_by_id := u\<rparr>
                       else j) (invitations db)"
  using assms
  unfolding create_invitation_def add_invitation_def Let_def pending_rows_def
  by (auto split: sum.splits option.splits if_splits dest!: scalar_one_or_none_Some)

lemma create_invitation_insert_fails:
  assumes "pending_rows db D E = []"
  shows "\<exists>e. create_invitation db D u E r m x now nid = Inl e"
proof (cases "create_invitation db D u E r m x now nid")
  case (Inl e)
  then show ?thesis by blast
next
  case (Inr res)
  then obtain i db' where "create_invitation db D u E r m x now nid = Inr (i, db')"
    by (cases res) auto
  from create_invitation_cases[OF this] assms show ?thesis by auto
qed

text \<open>
  A re-invitation succeeds: when the pair has its one pending row, the invitee's email
  is the email of at most one user and the new expiry is a date Python can represent,
  \<^verbatim>\<open>create_invitation\<close> returns the rewritten row and stores it in place.
\<close>

lemma create_invitation_reinvite:
  assumes "pending_rows db D E = [existing]"
    and "length (filter (\<lambda>u. u_email u = E) (users db)) \<le> 1"
    and "datetime_add_days now
           (case x of None \<Rightarrow> INVITATION_EXPIRE_DAYS
            | Some n \<Rightarrow> if n = 0 then INVITATION_EXPIRE_DAYS else n) = Inr e"
  shows "create_invitation db D u E r m x now nid =
           Inr (existing\<lparr>i_role := r, i_message := m, i_expires_at := e,
                          i_invited_by_id := u\<rparr>,
                db\<lparr>invitations :=
                     map (\<lambda>j. if i_id j = i_id existing
                               then j\<lparr>i_role := r, i_message := m, i_expires_at := e,
                                      i_invited_by_id := u\<rparr>
                               else j) (invitations db)\<rparr>)"
proof -
  obtain invitee where
    "scalar_one_or_none (filter (\<lambda>u. u_email u = E) (users db)) = Inr invitee"
    using scalar_one_or_none_short[OF assms(2)] by blast
  then show ?thesis
    using assms(1,3) by (simp add: create_invitation_def Let_def pending_rows_def)
qed

lemma create_invitation_pending_rows:
  assumes "create_invitation db D u E r m x now nid = Inr (i, db')"
  shows "pending_rows db' D E = [i] \<and> i_role i = r \<and> i_message i = m \<and>
         i_invited_by_id i = u \<and> i_status i = PENDING \<and> i_document_id i = D \<and>
         i_invitee_email i = E \<and> length (invitations db') = length (invitations db)"
proof -
  from create_invitation_cases[OF assms] obtain existing e where
    p: "pending_rows db D E = [existing]"
    and i: "i = existing\<lparr>i_role := r, i_message := m, i_expires_at := e,
                         i_invited_by_id := u\<rparr>"
    and inv: "invitations db' =
             map (\<lambda>j. if i_id j = i_id existing
                       then j\<lparr>i_role := r, i_message := m, i_expires_at := e,
                              i_invited_by_id := u\<rparr>
                       else j) (invitations db)"
    by blast
  have "existing \<in> set (pending_rows db D E)" using p by simp
  then have exP: "i_document_id existing = D" "i_invitee_email existing = E"
    "i_status existing = PENDING"
    by (simp_all add: pending_rows_def)
  have "pending_rows db' D E =
          map (\<lambda>j. if i_id j = i_id existing
                    then j\<lparr>i_role := r, i_message := m, i_expires_at := e,
                           i_invited_by_id := u\<rparr>
                    else j) (pending_rows db D E)"
    unfolding pending_rows_def inv by (rule filter_map_commute) simp
  then have "pending_rows db' D E = [i]" using p i by simp
  then show ?thesis using i exP inv by simp
qed

lemma create_invitation_pending_unique:
  assumes "create_invitation db D u E r m x now nid = Inr (i, db')" and "pending_unique db"
  shows "pending_unique db'"
proof -
  from create_invitation_cases[OF assms(1)] show ?thesis
  proof (elim exE conjE)
    fix existing e
    assume "invitations db' =
             map (\<lambda>j. if i_id j = i_id existing
                       then j\<lparr>i_role := r, i_message := m, i_expires_at := e,
                              i_invited_by_id := u\<rparr>
                       else j) (invitations db)"
    then show ?thesis
      by (rule pending_unique_map[OF assms(2)]) (simp_all split: if_splits)
  qed
qed

lemma create_invitation_route_Inr:
  "create_invitation_route db invitation_data current_user now new_id = Inr x \<Longrightarrow>
   create_invitation db (ic_document_id invitation_data) (u_id current_user)
     (ic_invitee_email invitation_data) (ic_role invitation_data)
     (ic_message invitation_data) None now new_id = Inr x"
  by (auto simp: create_invitation_route_def split: sum.splits if_splits)

lemma respond_to_invitation_pending_unique:
  assumes "respond_to_invitation db X accept u now new_id = Inr (r, db')"
    and "pending_unique db"
  shows "pending_unique db'"
proof -
  from assms(1) obtain invitation where
    g: "get_invitation_by_id db X = Inr (Some invitation)"
    by (auto simp: respond_to_invitation_def split: sum.splits option.splits)
  show ?thesis
  proof (cases accept)
    case True
    with assms(1) g obtain p where
      "accept_invitation db invitation (u_id u) now new_id = Inr (p, db')"
      by (auto simp: respond_to_invitation_def split: sum.splits if_splits)
    from accept_invitation_Inr[OF this] have
      "invitations db' =
           map (\<lambda>i. if i_id i = i_id invitation
                     then i\<lparr>i_status := ACCEPTED, i_responded_at := Some now,
                            i_invitee_id := Some (u_id u)\<rparr>
                     else i) (invitations db)" by simp
    then show ?thesis
      by (rule pending_unique_map[OF assms(2)]) (simp_all split: if_splits)
  next
    case False
    with assms(1) g have
      "invitations db' =
               map (\<lambda>i. if i_id i = i_id invitation
                         then i\<lparr>i_status := DECLINED, i_responded_at := Some now\<rparr>
                         else i) (invitations db)"
      by (auto simp: respond_to_invitation_def decline_invitation_def
          split: sum.splits if_splits)
    then show ?thesis
      by (rule pending_unique_map[OF assms(2)]) (simp_all split: if_splits)
  qed
qed

lemma cancel_invitation_route_pending_unique:
  assumes "cancel_invitation_route db X u = Inr (r, db')" and "pending_unique db"
  shows "pending_unique db'"
proof -
  from assms(1) obtain invitation where
    g: "get_invitation_by_id db X = Inr (Some invitation)"
    by (auto simp: cancel_invitation_route_def split: sum.splits option.splits)
  have "invitations db' = filter (\<lambda>i. i_id i \<noteq> i_id invitation) (invitations db)"
    using assms(1) g
    by (auto simp: cancel_invitation_route_def cancel_invitation_def split: if_splits)
  then show ?thesis by (rule pending_unique_filter[OF assms(2)])
qed

lemma expire_old_invitations_pending_unique:
  assumes "expire_old_invitations db now = Inr (n, db')" and "pending_unique db"
  shows "pending_unique db'"
proof -
  from assms(1) have
    "invitations db' = map (\<lambda>i. if i_status i = PENDING \<and> i_expires_at i \<le> now
                         then i\<lparr>i_status := EXPIRED\<rparr> else i) (invitations db)"
    by (auto simp: expire_old_invitations_def)
  then show ?thesis
    by (rule pending_unique_map[OF assms(2)]) (simp_all split: if_splits)
qed

lemma grant_permission_route_invitations:
  "grant_permission_route db D pd u now nid = Inr (p, db') \<Longrightarrow> invitations db' = invitations db"
  by (auto simp: grant_permission_route_def grant_permission_def add_permission_def Let_def
      split: sum.splits option.splits if_splits)

lemma revoke_permission_route_invitations:
  "revoke_permission_route db D U u = Inr (r, db') \<Longrightarrow> invitations db' = invitations db"
  by (auto simp: revoke_permission_route_def revoke_permission_def
      split: sum.splits option.splits if_splits)

lemma handle_pending_unique: "pending_unique db \<Longrightarrow> pending_unique (handle db r)"
proof (cases r)
  case (Create_invitation invitation_data current_user now new_id)
  then show "pending_unique db \<Longrightarrow> pending_unique (handle db r)"
    by (auto simp: committed_def split: sum.splits
        dest!: create_invitation_route_Inr dest: create_invitation_pending_unique)
next
  case (Respond_to_invitation X accept u now new_id)
  then show "pending_unique db \<Longrightarrow> pending_unique (handle db r)"
    by (auto simp: committed_def split: sum.splits dest: respond_to_invitation_pending_unique)
next
  case (Cancel_invitation X u)
  then show "pending_unique db \<Longrightarrow> pending_unique (handle db r)"
    by (auto simp: committed_def split: sum.splits dest: cancel_invitation_route_pending_unique)
next
  case (Expire_old_invitations now)
  then show "pending_unique db \<Longrightarrow> pending_unique (handle db r)"
    by (auto simp: committed_def split: sum.splits dest: expire_old_invitations_pending_unique)
next
  case (Grant_permission D pd u now nid)
  then show "pending_unique db \<Longrightarrow> pending_unique (handle db r)"
    by (auto simp: committed_def split: sum.splits
        dest!: grant_permission_route_invitations intro: pending_unique_same)
next
  case (Revoke_permission D U u)
  then show "pending_unique db \<Longrightarrow> pending_unique (handle db r)"
    by (auto simp: committed_def split: sum.splits
        dest!: revoke_permission_route_invitations intro: pending_unique_same)
qed

lemma run_requests_pending_unique:
  "pending_unique db \<Longrightarrow> pending_unique (run_requests db rs)"
  by (induction rs arbitrary: db) (simp_all add: handle_pending_unique)

text \<open>
  What the code keeps, for any database and any sequence of requests: at most
  one PENDING invitation per (document, invitee email) is kept; and a call of
  \<^verbatim>\<open>create_invitation\<close> for a pair that has its pending row succeeds, leaves exactly
  that one pending row, rewritten in place with the call's role, message, expiry and
  inviter, and adds no row.
\<close>

lemma pending_invitation_unique:
  "(pending_unique db \<longrightarrow>
      pending_unique (run_requests db rs) \<and>
      (\<forall>D E. length (pending_rows (run_requests db rs) D E) \<le> 1))
   \<and> (pending_rows db D E = [existing] \<and>
       length (filter (\<lambda>u. u_email u = E) (users db)) \<le> 1 \<and>
       datetime_add_days now INVITATION_EXPIRE_DAYS = Inr e \<longrightarrow>
         (\<exists>db'. create_invitation db D u E r m None now nid =
                   Inr (existing\<lparr>i_role := r, i_message := m, i_expires_at := e,
                                  i_invited_by_id := u\<rparr>, db') \<and>
                 pending_rows db' D E =
                   [existing\<lparr>i_role := r, i_message := m, i_expires_at := e,
                              i_invited_by_id := u\<rparr>] \<and>
                 length (invitations db') = length (invitations db)))"
proof (intro conjI impI)
  assume "pending_unique db"
  then show "pending_unique (run_requests db rs)" by (rule run_requests_pending_unique)
  then show "\<forall>D E. length (pending_rows (run_requests db rs) D E) \<le> 1"
    by (simp add: pending_unique_iff)
next
  assume a: "pending_rows db D E = [existing] \<and>
       length (filter (\<lambda>u. u_email u = E) (users db)) \<le> 1 \<and>
       datetime_add_days now INVITATION_EXPIRE_DAYS = Inr e"
  let ?i = "existing\<lparr>i_role := r, i_message := m, i_expires_at := e,
                      i_invited_by_id := u\<rparr>"
  let ?db' = "db\<lparr>invitations :=
                     map (\<lambda>j. if i_id j = i_id existing
                               then j\<lparr>i_role := r, i_message := m, i_expires_at := e,
                                      i_invited_by_id := u\<rparr>
                               else j) (invitations db)\<rparr>"
  have c: "create_invitation db D u E r m None now nid = Inr (?i, ?db')"
    using a create_invitation_reinvite[where db = db and D = D and E = E and existing = existing
        and x = None and now = now and e = e and u = u and r = r and m = m and nid = nid]
    by simp
  from create_invitation_pending_rows[OF c]
  have "pending_rows ?db' D E = [?i]"
    and "length (invitations ?db') = length (invitations db)" by simp_all
  with c show "\<exists>db'. create_invitation db D u E r m None now nid = Inr (?i, db') \<and>
                 pending_rows db' D E = [?i] \<and>
                 length (invitations db') = length (invitations db)"
    by blast
qed

text \<open>
  C5. The claim: at most one PENDING invitation per (document, invitee email) after any
  sequence of operations, a create for a pair with a pending row rewriting that row,
  so that two create calls for the same pair leave exactly one PENDING row. The first
  two parts hold (\<open>pending_invitation_unique\<close>). But a create for a pair with no pending
  row never stores one: the row \<^verbatim>\<open>create_invitation\<close> builds has no token hash, and the
  column is NOT NULL. From the small database, where nobody is invited, Alice invites
  Bob twice: both calls raise IntegrityError and no PENDING row exists afterwards.
\<close>

theorem create_invitation_twice_no_row:
  "get_user_role db0 10 1 = Inr (Some OWNER) \<and>
   pending_rows db0 10 ''bob@example.com'' = [] \<and>
   create_invitation db0 10 1 ''bob@example.com'' EDITOR None None 100 30 =
     Inl IntegrityError \<and>
   create_invitation_route db0
     \<lparr>ic_document_id = 10, ic_invitee_email = ''bob@example.com'', ic_role = EDITOR,
      ic_message = None\<rparr> alice 100 30 = Inl IntegrityError \<and>
   create_invitation_route db0
     \<lparr>ic_document_id = 10, ic_invitee_email = ''bob@example.com'', ic_role = VIEWER,
      ic_message = Some ''hi''\<rparr> alice 150 32 = Inl IntegrityError \<and>
   run_requests db0
     [Create_invitation \<lparr>ic_document_id = 10, ic_invitee_email = ''bob@example.com'',
                         ic_role = EDITOR, ic_message = None\<rparr> alice 100 30,
      Create_invitation \<lparr>ic_document_id = 10, ic_invitee_email = ''bob@example.com'',
                         ic_role = VIEWER, ic_message = Some ''hi''\<rparr> alice 150 32] = db0 \<and>
   pending_rows
     (run_requests db0
        [Create_invitation \<lparr>ic_document_id = 10, ic_invitee_email = ''bob@example.com'',
                            ic_role = EDITOR, ic_message = None\<rparr> alice 100 30,
         Create_invitation \<lparr>ic_document_id = 10, ic_invitee_email = ''bob@example.com'',
                            ic_role = VIEWER, ic_message = Some ''hi''\<rparr> alice 150 32])
     10 ''bob@example.com'' = []"
  by code_simp

text \<open>
  With Bob's invitation stored, Dave's re-invitation as VIEWER with a message rewrites
  it: one PENDING row remains, with Dave's role, message and expiry.
\<close>

lemma create_invitation_reinvite_example:
  "pending_unique db_invited \<and>
   create_invitation db_invited 10 4 ''bob@example.com'' VIEWER (Some ''hi'') None 150 32 =
     Inr (bob_invitation\<lparr>i_role := VIEWER, i_message := Some ''hi'',
            i_expires_at := 604800000150, i_invited_by_id := 4\<rparr>,
          db0\<lparr>invitations := [bob_invitation\<lparr>i_role := VIEWER, i_message := Some ''hi'',
            i_expires_at := 604800000150, i_invited_by_id := 4\<rparr>]\<rparr>) \<and>
   pending_rows
     (db0\<lparr>invitations := [bob_invitation\<lparr>i_role := VIEWER, i_message := Some ''hi'',
            i_expires_at := 604800000150, i_invited_by_id := 4\<rparr>]\<rparr>) 10 ''bob@example.com'' =
     [bob_invitation\<lparr>i_role := VIEWER, i_message := Some ''hi'',
            i_expires_at := 604800000150, i_invited_by_id := 4\<rparr>]"
  by code_simp

section \<open>Refresh-token round trip\<close>

lemma filter_filter_implied:
  assumes "\<And>x. Q x \<Longrightarrow> P x"
  shows "filter Q xs = filter Q (filter P xs)"
  using assms by (induction xs) auto

lemma token_row_by_hash:
  assumes "token_row H db token tid r"
  shows "filter (\<lambda>t. t_token_hash t = H token) (refresh_tokens db) = [r]"
proof -
  have f: "filter (\<lambda>t. t_token_hash t = H token \<or> t_id t = tid) (refresh_tokens db) = [r]"
    and h: "t_token_hash r = H token"
    using assms by (simp_all add: token_row_def)
  have "filter (\<lambda>t. t_token_hash t = H token) (refresh_tokens db) =
        filter (\<lambda>t. t_token_hash t = H token)
          (filter (\<lambda>t. t_token_hash t = H token \<or> t_id t = tid) (refresh_tokens db))"
    by (rule filter_filter_implied) simp
  also have "\<dots> = filter (\<lambda>t. t_token_hash t = H token) [r]"
    by (simp only: f)
  finally show ?thesis using h by simp
qed

lemma token_row_mem:
  assumes "token_row H db token tid r"
  shows "r \<in> set (refresh_tokens db)"
proof -
  have f: "filter (\<lambda>t. t_token_hash t = H token \<or> t_id t = tid) (refresh_tokens db) = [r]"
    using assms by (simp add: token_row_def)
  have "r \<in> set [r]" by simp
  then have "r \<in> set (filter (\<lambda>t. t_token_hash t = H token \<or> t_id t = tid) (refresh_tokens db))"
    by (simp only: f)
  then show ?thesis by simp
qed

lemma token_row_unique:
  assumes "token_row H db token tid r" and "x \<in> set (refresh_tokens db)"
    and "t_token_hash x = H token \<or> t_id x = tid"
  shows "x = r"
proof -
  have f: "filter (\<lambda>t. t_token_hash t = H token \<or> t_id t = tid) (refresh_tokens db) = [r]"
    using assms(1) by (simp add: token_row_def)
  have "x \<in> set (filter (\<lambda>t. t_token_hash t = H token \<or> t_id t = tid) (refresh_tokens db))"
    using assms(2,3) by simp
  then have "x \<in> set [r]" by (simp only: f)
  then show ?thesis by simp
qed

lemma token_row_map:
  assumes "token_row H db token tid r" and "refresh_tokens db' = map g (refresh_tokens db)"
    and "\<And>t. t_token_hash (g t) = t_token_hash t" and "\<And>t. t_id (g t) = t_id t"
  shows "token_row H db' token tid (g r)"
proof -
  have "filter (\<lambda>t. t_token_hash t = H token \<or> t_id t = tid) (map g (refresh_tokens db)) =
        map g (filter (\<lambda>t. t_token_hash t = H token \<or> t_id t = tid) (refresh_tokens db))"
    by (rule filter_map_commute) (simp add: assms(3,4))
  then show ?thesis using assms by (simp add: token_row_def)
qed

lemma verify_refresh_token_row:
  assumes "token_row H db token tid r"
  shows "verify_refresh_token H db token now =
           (if t_is_revoked r = False \<and> now < t_expires_at r
            then Inr (Some (r\<lparr>t_last_used_at := Some now\<rparr>),
                      db\<lparr>refresh_tokens :=
                           map (\<lambda>t. if t_id t = tid then t\<lparr>t_last_used_at := Some now\<rparr> else t)
                             (refresh_tokens db)\<rparr>)
            else Inr (None, db))"
proof -
  have "filter (\<lambda>t. t_token_hash t = H token \<and> t_is_revoked t = False \<and> t_expires_at t > now)
          (refresh_tokens db) =
        filter (\<lambda>t. t_is_revoked t = False \<and> t_expires_at t > now)
          (filter (\<lambda>t. t_token_hash t = H token) (refresh_tokens db))"
    by (rule filter_conj_split)
  also have "\<dots> = filter (\<lambda>t. t_is_revoked t = False \<and> t_expires_at t > now) [r]"
    using token_row_by_hash[OF assms] by simp
  finally show ?thesis
    using assms by (simp add: verify_refresh_token_def token_row_def)
qed

lemma create_refresh_token_row:
  assumes "create_refresh_token H days db u token now nid = Inr (token', db1)"
  shows "token' = token \<and>
         token_row H db1 token nid
           \<lparr>t_id = nid, t_user_id = u, t_token_hash = H token, t_is_revoked = False,
            t_expires_at = now + timedelta_days days, t_last_used_at = None,
            t_revoked_at = None\<rparr>"
  using assms
  by (auto simp: create_refresh_token_def add_refresh_token_def Let_def token_row_def
      list_ex_iff refresh_token_clash_def filter_empty_conv split: if_splits)

lemma auth_handle_token_row:
  assumes "token_row H db token tid r"
  shows "\<exists>r'. token_row H (auth_handle H days db c) token tid r' \<and>
           t_user_id r' = t_user_id r \<and> t_expires_at r' = t_expires_at r \<and>
           (t_is_revoked r' \<longleftrightarrow> t_is_revoked r \<or> revokes H token (t_user_id r) c)"
proof (cases c)
  case (Create_refresh_token u' token' now nid')
  show ?thesis
  proof (cases "create_refresh_token H days db u' token' now nid'")
    case (Inl e)
    then show ?thesis using assms Create_refresh_token by (auto simp: committed_def)
  next
    case (Inr res)
    then obtain db' where res: "res = (token', db')"
      by (cases res) (auto simp: create_refresh_token_def Let_def split: sum.splits)
    let ?n = "\<lparr>t_id = nid', t_user_id = u', t_token_hash = H token', t_is_revoked = False,
            t_expires_at = now + timedelta_days days, t_last_used_at = None,
            t_revoked_at = None\<rparr>"
    from Inr res have noclash: "\<not> list_ex (refresh_token_clash ?n) (refresh_tokens db)"
      and db': "refresh_tokens db' = refresh_tokens db @ [?n]"
      by (auto simp: create_refresh_token_def add_refresh_token_def Let_def split: if_splits)
    have "\<not> refresh_token_clash ?n r"
      using noclash token_row_mem[OF assms] by (auto simp: list_ex_iff)
    then have "\<not> (t_token_hash ?n = H token \<or> t_id ?n = tid)"
      using assms by (auto simp: refresh_token_clash_def token_row_def)
    then have "token_row H db' token tid r"
      using assms db' by (simp add: token_row_def)
    then show ?thesis using Create_refresh_token Inr res by (auto simp: committed_def)
  qed
next
  case (Verify_refresh_token token' now)
  show ?thesis
  proof (cases "scalar_one_or_none
             (filter (\<lambda>t. t_token_hash t = H token' \<and> t_is_revoked t = False \<and>
                           t_expires_at t > now) (refresh_tokens db))")
    case (Inl e)
    then show ?thesis using assms Verify_refresh_token
      by (auto simp: committed_def verify_refresh_token_def)
  next
    case (Inr found)
    show ?thesis
    proof (cases found)
      case None
      then show ?thesis using assms Verify_refresh_token Inr
        by (auto simp: committed_def verify_refresh_token_def)
    next
      case (Some rt)
      let ?g = "\<lambda>t. if t_id t = t_id rt then t\<lparr>t_last_used_at := Some now\<rparr> else t"
      have db': "refresh_tokens (auth_handle H days db c) = map ?g (refresh_tokens db)"
        using Verify_refresh_token Inr Some
        by (simp add: committed_def verify_refresh_token_def)
      have "token_row H (auth_handle H days db c) token tid (?g r)"
        using assms db' by (rule token_row_map) simp_all
      then show ?thesis using Verify_refresh_token
        by (intro exI[where x = "?g r"]) simp
    qed
  qed
next
  case (Revoke_refresh_token token' now)
  show ?thesis
  proof (cases "scalar_one_or_none
             (filter (\<lambda>t. t_token_hash t = H token') (refresh_tokens db))")
    case (Inl e)
    have "H token' \<noteq> H token"
    proof
      assume "H token' = H token"
      then have "filter (\<lambda>t. t_token_hash t = H token') (refresh_tokens db) = [r]"
        using token_row_by_hash[OF assms] by simp
      then show False using Inl by simp
    qed
    then show ?thesis using assms Revoke_refresh_token Inl
      by (auto simp: committed_def revoke_refresh_token_def)
  next
    case (Inr found)
    show ?thesis
    proof (cases found)
      case None
      have "H token' \<noteq> H token"
      proof
        assume "H token' = H token"
        then have "filter (\<lambda>t. t_token_hash t = H token') (refresh_tokens db) = [r]"
          using token_row_by_hash[OF assms] by simp
        then show False using Inr None by simp
      qed
      then show ?thesis using assms Revoke_refresh_token Inr None
        by (auto simp: committed_def revoke_refresh_token_def)
    next
      case (Some rt)
      then have single: "filter (\<lambda>t. t_token_hash t = H token') (refresh_tokens db) = [rt]"
        using Inr by (auto dest: scalar_one_or_none_Some)
      then have "rt \<in> set (filter (\<lambda>t. t_token_hash t = H token') (refresh_tokens db))"
        by simp
      then have rt: "rt \<in> set (refresh_tokens db)" "t_token_hash rt = H token'" by simp_all
      have iff: "t_id rt = tid \<longleftrightarrow> H token' = H token"
      proof
        assume "t_id rt = tid"
        then have "rt = r" using token_row_unique[OF assms rt(1)] by simp
        then show "H token' = H token" using rt(2) assms by (simp add: token_row_def)
      next
        assume "H token' = H token"
        then have "rt = r" using token_row_unique[OF assms rt(1)] rt(2) by simp
        then show "t_id rt = tid" using assms by (simp add: token_row_def)
      qed
      let ?g = "\<lambda>t. if t_id t = t_id rt
                     then t\<lparr>t_is_revoked := True, t_revoked_at := Some now\<rparr> else t"
      have db': "refresh_tokens (auth_handle H days db c) = map ?g (refresh_tokens db)"
        using Revoke_refresh_token Inr Some
        by (simp add: committed_def revoke_refresh_token_def)
      have "token_row H (auth_handle H days db c) token tid (?g r)"
        using assms db' by (rule token_row_map) simp_all
      moreover have "t_id r = tid" using assms by (simp add: token_row_def)
      ultimately show ?thesis using Revoke_refresh_token iff
        by (intro exI[where x = "?g r"]) auto
    qed
  qed
next
  case (Revoke_all_user_tokens u' now)
  let ?g = "\<lambda>t. if t_user_id t = u' \<and> t_is_revoked t = False
                 then t\<lparr>t_is_revoked := True, t_revoked_at := Some now\<rparr> else t"
  have db': "refresh_tokens (auth_handle H days db c) = map ?g (refresh_tokens db)"
    using Revoke_all_user_tokens by (simp add: committed_def revoke_all_user_tokens_def)
  have "token_row H (auth_handle H days db c) token tid (?g r)"
    using assms db' by (rule token_row_map) simp_all
  then show ?thesis using Revoke_all_user_tokens
    by (intro exI[where x = "?g r"]) auto
qed

lemma auth_run_token_row:
  assumes "token_row H db token tid r"
  shows "\<exists>r'. token_row H (auth_run H days db cs) token tid r' \<and>
           t_user_id r' = t_user_id r \<and> t_expires_at r' = t_expires_at r \<and>
           (t_is_revoked r' \<longleftrightarrow> t_is_revoked r \<or> list_ex (revokes H token (t_user_id r)) cs)"
  using assms
proof (induction cs arbitrary: db r)
  case Nil
  then show ?case by auto
next
  case (Cons c cs)
  from auth_handle_token_row[OF Cons.prems, of days c] obtain r1 where
    r1: "token_row H (auth_handle H days db c) token tid r1"
    and u1: "t_user_id r1 = t_user_id r" and e1: "t_expires_at r1 = t_expires_at r"
    and v1: "t_is_revoked r1 \<longleftrightarrow> t_is_revoked r \<or> revokes H token (t_user_id r) c"
    by blast
  from Cons.IH[OF r1] obtain r' where
    "token_row H (auth_run H days (auth_handle H days db c) cs) token tid r'"
    "t_user_id r' = t_user_id r1" "t_expires_at r' = t_expires_at r1"
    "t_is_revoked r' \<longleftrightarrow> t_is_revoked r1 \<or> list_ex (revokes H token (t_user_id r1)) cs"
    by blast
  then show ?case using u1 e1 v1 by auto
qed

text \<open>
  The requests on documents, permissions and invitations leave the refresh-token
  table alone, and \<^verbatim>\<open>verify_refresh_token\<close> reads nothing else.
\<close>

lemma handle_refresh_tokens: "refresh_tokens (handle db r) = refresh_tokens db"
proof (cases r)
  case (Create_invitation invitation_data current_user now new_id)
  then show ?thesis
    by (auto simp: committed_def create_invitation_route_def create_invitation_def
        add_invitation_def Let_def split: sum.splits option.splits if_splits)
next
  case (Respond_to_invitation X accept u now new_id)
  then show ?thesis
    by (auto simp: committed_def respond_to_invitation_def accept_invitation_def
        decline_invitation_def add_permission_def Let_def
        split: sum.splits option.splits if_splits)
next
  case (Cancel_invitation X u)
  then show ?thesis
    by (auto simp: committed_def cancel_invitation_route_def cancel_invitation_def
        split: sum.splits option.splits if_splits)
next
  case (Expire_old_invitations now)
  then show ?thesis by (simp add: committed_def expire_old_invitations_def)
next
  case (Grant_permission D pd u now nid)
  then show ?thesis
    by (auto simp: committed_def grant_permission_route_def grant_permission_def
        add_permission_def Let_def split: sum.splits option.splits if_splits)
next
  case (Revoke_permission D U u)
  then show ?thesis
    by (auto simp: committed_def revoke_permission_route_def revoke_permission_def
        split: sum.splits option.splits if_splits)
qed

lemma verify_refresh_token_tokens_only:
  "refresh_tokens db = refresh_tokens db2 \<Longrightarrow>
   map_sum id fst (verify_refresh_token H db token now) =
   map_sum id fst (verify_refresh_token H db2 token now)"
  by (auto simp: verify_refresh_token_def split: sum.splits option.splits)

text \<open>
  C6. Let \<^verbatim>\<open>create_refresh_token\<close> for user \<open>u\<close> succeed at time \<open>now\<close>; it returns
  the secret it drew. Let any sequence \<open>cs\<close> of calls of the token service follow
  (issuing, verifying, revoking, revoking all, for any users and secrets, at any times).
  If no call of \<open>cs\<close> revokes the token (a revoke of a secret with the same hash, or a
  revoke-all for \<open>u\<close>) and the time \<open>t\<close> is before the expiry \<open>now\<close> + lifetime, then
  verify at \<open>t\<close> returns the token's row, which belongs to \<open>u\<close>, and stores \<open>t\<close> as
  its last use. If some call of \<open>cs\<close> revokes the token, whatever calls come after it,
  or if \<open>t\<close> is the expiry or later, then verify returns None and stores nothing.
  (The query keeps a token while \<^verbatim>\<open>expires_at > now\<close>: the instant of expiry itself
  counts as expired.)
\<close>

theorem refresh_token_round_trip:
  assumes "create_refresh_token H days db u token now nid = Inr (token', db1)"
  shows "token' = token
     \<and> (\<not> list_ex (revokes H token u) cs \<and> t < now + timedelta_days days \<longrightarrow>
          (\<exists>r db'. verify_refresh_token H (auth_run H days db1 cs) token t = Inr (Some r, db')
             \<and> t_user_id r = u \<and> t_last_used_at r = Some t \<and> token_row H db' token nid r))
     \<and> (list_ex (revokes H token u) cs \<or> now + timedelta_days days \<le> t \<longrightarrow>
          verify_refresh_token H (auth_run H days db1 cs) token t =
            Inr (None, auth_run H days db1 cs))"
proof -
  let ?r0 = "\<lparr>t_id = nid, t_user_id = u, t_token_hash = H token, t_is_revoked = False,
            t_expires_at = now + timedelta_days days, t_last_used_at = None,
            t_revoked_at = None\<rparr>"
  let ?db = "auth_run H days db1 cs"
  from create_refresh_token_row[OF assms] have tok: "token' = token"
    and row0: "token_row H db1 token nid ?r0" by simp_all
  from auth_run_token_row[OF row0, of days cs] obtain r where
    row: "token_row H ?db token nid r" and ru: "t_user_id r = u"
    and re: "t_expires_at r = now + timedelta_days days"
    and rv: "t_is_revoked r \<longleftrightarrow> list_ex (revokes H token u) cs"
    by auto
  note v = verify_refresh_token_row[OF row, of t]
  have valid: "\<not> list_ex (revokes H token u) cs \<and> t < now + timedelta_days days \<longrightarrow>
          (\<exists>r db'. verify_refresh_token H ?db token t = Inr (Some r, db')
             \<and> t_user_id r = u \<and> t_last_used_at r = Some t \<and> token_row H db' token nid r)"
  proof
    assume a: "\<not> list_ex (revokes H token u) cs \<and> t < now + timedelta_days days"
    let ?g = "\<lambda>x. if t_id x = nid then x\<lparr>t_last_used_at := Some t\<rparr> else x"
    let ?db' = "?db\<lparr>refresh_tokens := map ?g (refresh_tokens ?db)\<rparr>"
    have "verify_refresh_token H ?db token t = Inr (Some (r\<lparr>t_last_used_at := Some t\<rparr>), ?db')"
      using v a rv re by simp
    moreover have "token_row H ?db' token nid (?g r)"
      by (rule token_row_map[OF row]) simp_all
    moreover have "t_id r = nid" using row by (simp add: token_row_def)
    ultimately show "\<exists>r db'. verify_refresh_token H ?db token t = Inr (Some r, db')
             \<and> t_user_id r = u \<and> t_last_used_at r = Some t \<and> token_row H db' token nid r"
      using ru by auto
  qed
  have invalid: "list_ex (revokes H token u) cs \<or> now + timedelta_days days \<le> t \<longrightarrow>
          verify_refresh_token H ?db token t = Inr (None, ?db)"
    using v rv re by auto
  show ?thesis using tok valid invalid by blast
qed

text \<open>
  Bob logs in at time 0. A verify, another user's login and another user's revoke-all
  later, his token verifies at time 10 and the row is stamped. After a revoke of his
  secret (even with a later attempt to issue the same secret again), or after his
  revoke-all, it does not verify; nor does it at the expiry, 30 days after the login.
\<close>

theorem refresh_token_round_trip_witness:
  "create_refresh_token rev 30 db0 2 ''secret'' 0 50 = Inr (''secret'', db_session) \<and>
   (\<exists>r db'. verify_refresh_token rev
       (auth_run rev 30 db_session
          [Verify_refresh_token ''secret'' 5, Create_refresh_token 3 ''other'' 6 51,
           Revoke_all_user_tokens 3 7])
       ''secret'' 10 = Inr (Some r, db') \<and>
     t_user_id r = 2 \<and> t_last_used_at r = Some 10 \<and> token_row rev db' ''secret'' 50 r) \<and>
   verify_refresh_token rev
     (auth_run rev 30 db_session
        [Revoke_refresh_token ''secret'' 7, Verify_refresh_token ''secret'' 8,
         Create_refresh_token 2 ''secret'' 9 52])
     ''secret'' 10 =
     Inr (None,
          auth_run rev 30 db_session
            [Revoke_refresh_token ''secret'' 7, Verify_refresh_token ''secret'' 8,
             Create_refresh_token 2 ''secret'' 9 52]) \<and>
   verify_refresh_token rev (auth_run rev 30 db_session [Revoke_all_user_tokens 2 7])
     ''secret'' 10 =
     Inr (None, auth_run rev 30 db_session [Revoke_all_user_tokens 2 7]) \<and>
   verify_refresh_token rev (auth_run rev 30 db_session []) ''secret'' 2592000000000 =
     Inr (None, auth_run rev 30 db_session [])"
proof -
  have h: "create_refresh_token rev 30 db0 2 ''secret'' 0 50 = Inr (''secret'', db_session)"
    by code_simp
  have n1: "\<not> list_ex (revokes rev ''secret'' 2)
          [Verify_refresh_token ''secret'' 5, Create_refresh_token 3 ''other'' 6 51,
           Revoke_all_user_tokens 3 7]" by code_simp
  have n2: "list_ex (revokes rev ''secret'' 2)
        [Revoke_refresh_token ''secret'' 7, Verify_refresh_token ''secret'' 8,
         Create_refresh_token 2 ''secret'' 9 52]" by code_simp
  have n3: "list_ex (revokes rev ''secret'' 2) [Revoke_all_user_tokens 2 7]" by code_simp
  have t1: "(10::int) < 0 + timedelta_days 30" by code_simp
  have t2: "0 + timedelta_days 30 \<le> (2592000000000::int)" by code_simp
  show ?thesis
    using h n1 n2 n3 t1 t2
      refresh_token_round_trip[OF h,
        of "[Verify_refresh_token ''secret'' 5, Create_refresh_token 3 ''other'' 6 51,
           Revoke_all_user_tokens 3 7]" 10]
      refresh_token_round_trip[OF h,
        of "[Revoke_refresh_token ''secret'' 7, Verify_refresh_token ''secret'' 8,
         Create_refresh_token 2 ''secret'' 9 52]" 10]
      refresh_token_round_trip[OF h, of "[Revoke_all_user_tokens 2 7]" 10]
      refresh_token_round_trip[OF h, of "[]" 2592000000000]
    by blast
qed

end
